theory Spec2Isabelle
  imports Main
begin

section \<open>JavaScript values and strings\<close>

text \<open>
  The values that reach the header container: \<open>undefined\<close>, \<open>null\<close>, booleans, strings,
  arrays and plain objects (own enumerable properties in insertion order). Numbers are left
  out (their \<open>String\<close> rendering is floating point); strings are ASCII.
\<close>

datatype jsval =
    JUndefined
  | JNull
  | JBool bool
  | JStr string
  | JArr "jsval list"
  | JObj "(string \<times> jsval) list"

text \<open>Truthiness, as \<open>!x\<close>, \<open>x && y\<close> and \<open>if (x)\<close> read it.\<close>

fun truthy :: "jsval \<Rightarrow> bool" where
  "truthy JUndefined = False"
| "truthy JNull = False"
| "truthy (JBool b) = b"
| "truthy (JStr s) = (s \<noteq> [])"
| "truthy (JArr xs) = True"
| "truthy (JObj kvs) = True"

fun join :: "string \<Rightarrow> string list \<Rightarrow> string" where
  "join sep [] = []"
| "join sep [x] = x"
| "join sep (x # y # ys) = x @ sep @ join sep (y # ys)"

text \<open>\<open>String(value)\<close>; an array joins its elements with a comma, \<open>null\<close> and \<open>undefined\<close>
  elements rendering as the empty string.\<close>

fun js_String :: "jsval \<Rightarrow> string" where
  "js_String JUndefined = ''undefined''"
| "js_String JNull = ''null''"
| "js_String (JBool b) = (if b then ''true'' else ''false'')"
| "js_String (JStr s) = s"
| "js_String (JArr xs) =
     join '','' (map (\<lambda>x. if x = JNull \<or> x = JUndefined then [] else js_String x) xs)"
| "js_String (JObj kvs) = ''[object Object]''"

definition toLowerChar :: "char \<Rightarrow> char" where
  "toLowerChar c =
     (case map_of (zip ''ABCDEFGHIJKLMNOPQRSTUVWXYZ'' ''abcdefghijklmnopqrstuvwxyz'') c of
        Some d \<Rightarrow> d
      | None \<Rightarrow> c)"

definition toLowerCase :: "string \<Rightarrow> string" where
  "toLowerCase s = map toLowerChar s"

definition toUpperChar :: "char \<Rightarrow> char" where
  "toUpperChar c =
     (case map_of (zip ''abcdefghijklmnopqrstuvwxyz'' ''ABCDEFGHIJKLMNOPQRSTUVWXYZ'') c of
        Some d \<Rightarrow> d
      | None \<Rightarrow> c)"

text \<open>The ASCII white space that \<open>String.prototype.trim\<close> strips.\<close>

definition isSpace :: "char \<Rightarrow> bool" where
  "isSpace c = (c \<in> set [CHR 0x09, CHR 0x0A, CHR 0x0B, CHR 0x0C, CHR 0x0D, CHR '' ''])"

definition trim :: "string \<Rightarrow> string" where
  "trim s = rev (dropWhile isSpace (rev (dropWhile isSpace s)))"

section \<open>AxiosHeaders\<close>

text \<open>
  An instance is a JavaScript object used as a dictionary: its own enumerable string keys
  in insertion order, each with a value. Integer-like keys (which JavaScript orders first)
  and names of prototype members are not header names and are outside the model.
\<close>

type_synonym headers = "(string \<times> jsval) list"

datatype js_error =
    Error string
  | TypeError string
  | AxiosError string "string option"
  | CanceledError "string option"

text \<open>
  \<open>self[key]\<close> for an own key, the write of an own data property (also used for plain
  objects), \<open>delete self[key]\<close> and \<open>Object.keys(self)\<close>.
\<close>

definition read_prop :: "headers \<Rightarrow> string \<Rightarrow> jsval" where
  "read_prop self key = (case map_of self key of Some v \<Rightarrow> v | None \<Rightarrow> JUndefined)"

fun assign :: "(string \<times> 'v) list \<Rightarrow> string \<Rightarrow> 'v \<Rightarrow> (string \<times> 'v) list" where
  "assign [] key v = [(key, v)]"
| "assign ((k, w) # rest) key v =
     (if k = key then (k, v) # rest else (k, w) # assign rest key v)"

text \<open>
  Modelled from the spec: \<open>utils.reduceDescriptors\<close> and \<open>utils.toCamelCase\<close> are not under
  src/. The string-named members of \<open>AxiosHeaders.prototype\<close>: the methods of the class and
  the accessors \<open>getX\<close>, \<open>setX\<close>, \<open>hasX\<close> that \<open>AxiosHeaders.accessor\<close> generates for
  Content-Type, Content-Length, Accept, Accept-Encoding, User-Agent and Authorization
  (accessors added later are outside the model). Lines 322 to 330 redefine each of them
  as an accessor property whose setter stores under the name with its first letter in
  upper case (\<open>key[0].toUpperCase() + key.slice(1)\<close>).
\<close>

definition prototype_members :: "string list" where
  "prototype_members =
     [''constructor'', ''set'', ''get'', ''has'', ''delete'', ''clear'', ''normalize'', ''concat'',
      ''toJSON'', ''toString'',
      ''getContentType'', ''setContentType'', ''hasContentType'',
      ''getContentLength'', ''setContentLength'', ''hasContentLength'',
      ''getAccept'', ''setAccept'', ''hasAccept'',
      ''getAcceptEncoding'', ''setAcceptEncoding'', ''hasAcceptEncoding'',
      ''getUserAgent'', ''setUserAgent'', ''hasUserAgent'',
      ''getAuthorization'', ''setAuthorization'', ''hasAuthorization'']"

definition capitalize :: "string \<Rightarrow> string" where
  "capitalize key = (case key of [] \<Rightarrow> [] | c # cs \<Rightarrow> toUpperChar c # cs)"

text \<open>
  \<open>self[name] = value\<close> on an instance. An own property is written in place. Otherwise
  the name is looked up on the prototype chain: for a member of \<open>AxiosHeaders.prototype\<close>
  the setter above runs \<open>this[mapped] = value\<close>; for \<open>__proto__\<close> the setter of
  \<open>Object.prototype\<close> runs, which creates no property (given \<open>null\<close> or an array it
  replaces the prototype of the instance, which the model does not follow); any other
  name becomes a new own property, the last in the order of the keys.
\<close>

definition write_prop :: "headers \<Rightarrow> string \<Rightarrow> jsval \<Rightarrow> headers" where
  "write_prop self name v =
     (if name \<in> set (map fst self) then assign self name v
      else if name \<in> set prototype_members then assign self (capitalize name) v
      else if name = ''__proto__'' then self
      else assign self name v)"


definition keys :: "headers \<Rightarrow> string list" where
  "keys self = map fst self"

text \<open>
  Modelled from the spec: \<open>utils.findKey\<close> is not under src/. Lookups by header name are
  case-insensitive: the stored key whose lower-casing equals the lower-cased name, scanning
  from the most recently added key; \<open>null\<close> (here \<open>None\<close>) when there is none.
\<close>

definition findKey :: "headers \<Rightarrow> string \<Rightarrow> string option" where
  "findKey obj key = find (\<lambda>k. toLowerCase k = toLowerCase key) (rev (keys obj))"

text \<open>\<open>header && String(header).trim().toLowerCase()\<close>\<close>

definition normalizeHeader :: "jsval \<Rightarrow> jsval" where
  "normalizeHeader header =
     (if truthy header then JStr (toLowerCase (trim (js_String header))) else header)"

fun normalizeValue :: "jsval \<Rightarrow> jsval" where
  "normalizeValue (JBool False) = JBool False"
| "normalizeValue JNull = JNull"
| "normalizeValue JUndefined = JUndefined"
| "normalizeValue (JArr xs) = JArr (map normalizeValue xs)"
| "normalizeValue v = JStr (js_String v)"

text \<open>The character class of \<open>isValidHeaderName\<close>, and the test on the trimmed string.\<close>

definition headerNameChars :: "char list" where
  "headerNameChars =
     ''-_abcdefghijklmnopqrstuvwxyzABCDEFGHIJKLMNOPQRSTUVWXYZ0123456789^|~,!#$%&*+.''
       @ [CHR 0x60, CHR 0x27]"

definition isValidHeaderName :: "string \<Rightarrow> bool" where
  "isValidHeaderName str = (trim str \<noteq> [] \<and> list_all (\<lambda>c. c \<in> set headerNameChars) (trim str))"

text \<open>
  A filter of \<open>has\<close>, \<open>delete\<close> and \<open>clear\<close>: a function of the value and the header, a
  string searched in the value, a regular expression (its \<open>test\<close>), or anything else.
\<close>

datatype matcher =
    MFun "jsval \<Rightarrow> string \<Rightarrow> bool"
  | MStr string
  | MRegExp "string \<Rightarrow> bool"
  | MOther

fun isPrefixOf :: "string \<Rightarrow> string \<Rightarrow> bool" where
  "isPrefixOf [] ys = True"
| "isPrefixOf (x # xs) [] = False"
| "isPrefixOf (x # xs) (y # ys) = (x = y \<and> isPrefixOf xs ys)"

text \<open>\<open>value.indexOf(filter) !== -1\<close>\<close>

fun str_includes :: "string \<Rightarrow> string \<Rightarrow> bool" where
  "str_includes [] flt = (flt = [])"
| "str_includes (c # cs) flt = (isPrefixOf flt (c # cs) \<or> str_includes cs flt)"

text \<open>The truthiness of \<open>matchHeaderValue(context, value, header, filter, isHeaderNameFilter)\<close>.\<close>

definition matchHeaderValue :: "jsval \<Rightarrow> string \<Rightarrow> matcher \<Rightarrow> bool \<Rightarrow> bool" where
  "matchHeaderValue v header flt isHeaderNameFilter =
     (case flt of
        MFun f \<Rightarrow> f v header
      | _ \<Rightarrow>
         (case (if isHeaderNameFilter then JStr header else v) of
            JStr s \<Rightarrow>
              (case flt of
                 MStr f \<Rightarrow> str_includes s f
               | MRegExp t \<Rightarrow> t s
               | _ \<Rightarrow> False)
          | _ \<Rightarrow> False))"

text \<open>
  \<open>setHeader(_value, _header, _rewrite)\<close>, the closure of \<open>set\<close>: it throws on a name that
  normalizes to a falsy value, and assigns to \<open>self[key || _header]\<close>: the stored key, or
  the name as given when no key matches.
\<close>

definition setHeader :: "headers \<Rightarrow> jsval \<Rightarrow> jsval \<Rightarrow> jsval \<Rightarrow> js_error + headers" where
  "setHeader self v header rewrite =
     (let lHeader = normalizeHeader header in
      if \<not> truthy lHeader then Inl (Error ''header name must be a non-empty string'')
      else
        let key = findKey self (js_String lHeader) in
        if key = None \<or> read_prop self (the key) = JUndefined \<or> rewrite = JBool True
            \<or> (rewrite = JUndefined \<and> read_prop self (the key) \<noteq> JBool False)
        then Inr (write_prop self (case key of Some k \<Rightarrow> k | None \<Rightarrow> js_String header)
                    (normalizeValue v))
        else Inr self)"

text \<open>
  \<open>setHeaders(headers, _rewrite)\<close>: \<open>utils.forEach\<close> over the own properties of a bag, in
  order. The container is mutated in place, so a throw leaves the writes made before it:
  the result is the container and the error thrown, if any.
\<close>

fun setHeaders :: "headers \<Rightarrow> (string \<times> jsval) list \<Rightarrow> jsval \<Rightarrow> headers \<times> js_error option" where
  "setHeaders self [] rewrite = (self, None)"
| "setHeaders self ((k, v) # rest) rewrite =
     (case setHeader self v (JStr k) rewrite of
        Inl e \<Rightarrow> (self, Some e)
      | Inr self' \<Rightarrow> setHeaders self' rest rewrite)"

text \<open>
  \<open>set(header, valueOrRewrite, rewrite)\<close>. A plain object or another instance is a bag of
  pairs (\<open>JObj\<close>); a string that is not a valid header name is a raw header block, parsed by
  \<open>parseHeaders\<close> (helpers/parseHeaders.js, not under src/: the parameter \<open>ph\<close>); anything
  else that is not \<open>null\<close> or \<open>undefined\<close> is a single name. The test on a string assigns
  the trimmed string back to \<open>header\<close>.
\<close>

definition set_header ::
  "(string \<Rightarrow> (string \<times> jsval) list) \<Rightarrow> headers \<Rightarrow> jsval \<Rightarrow> jsval \<Rightarrow> jsval
     \<Rightarrow> headers \<times> js_error option" where
  "set_header ph self header valueOrRewrite rewrite =
     (case header of
        JObj kvs \<Rightarrow> setHeaders self kvs valueOrRewrite
      | JStr s \<Rightarrow>
          if trim s \<noteq> [] \<and> \<not> isValidHeaderName (trim s)
          then setHeaders self (ph (trim s)) valueOrRewrite
          else (case setHeader self valueOrRewrite (JStr (trim s)) rewrite of
                  Inl e \<Rightarrow> (self, Some e)
                | Inr self' \<Rightarrow> (self', None))
      | _ \<Rightarrow>
          if header \<noteq> JNull \<and> header \<noteq> JUndefined
          then (case setHeader self valueOrRewrite header rewrite of
                  Inl e \<Rightarrow> (self, Some e)
                | Inr self' \<Rightarrow> (self', None))
          else (self, None))"

text \<open>
  \<open>get(header, parser)\<close>. A truthy parser post-processes the stored value: \<open>parseTokens\<close>
  for \<open>true\<close>, the call of a function, the \<open>exec\<close> of a regular expression, a TypeError
  for anything else; it is given as the function of the value and the matched key that
  this branch computes. \<open>None\<close> is a falsy (absent) parser.
\<close>

definition get ::
  "headers \<Rightarrow> jsval \<Rightarrow> (jsval \<Rightarrow> string \<Rightarrow> js_error + jsval) option \<Rightarrow> js_error + jsval" where
  "get self header parser =
     (let header = normalizeHeader header in
      if truthy header then
        (case findKey self (js_String header) of
           Some key \<Rightarrow>
             (let v = read_prop self key in
              case parser of None \<Rightarrow> Inr v | Some p \<Rightarrow> p v key)
         | None \<Rightarrow> Inr JUndefined)
      else Inr JUndefined)"

definition has :: "headers \<Rightarrow> jsval \<Rightarrow> matcher option \<Rightarrow> bool" where
  "has self header m =
     (let header = normalizeHeader header in
      if truthy header then
        (case findKey self (js_String header) of
           Some key \<Rightarrow>
             read_prop self key \<noteq> JUndefined
               \<and> (case m of None \<Rightarrow> True | Some f \<Rightarrow> matchHeaderValue (read_prop self key) key f False)
         | None \<Rightarrow> False)
      else False)"



text \<open>\<open>new AxiosHeaders(headers)\<close> and the static \<open>AxiosHeaders.from(thing)\<close>.\<close>

datatype header_source = Instance headers | Raw jsval

definition new_AxiosHeaders ::
  "(string \<Rightarrow> (string \<times> jsval) list) \<Rightarrow> jsval \<Rightarrow> js_error + headers" where
  "new_AxiosHeaders ph hs =
     (if truthy hs then
        (case set_header ph [] hs JUndefined JUndefined of
           (self, None) \<Rightarrow> Inr self
         | (self, Some e) \<Rightarrow> Inl e)
      else Inr [])"

definition from_headers ::
  "(string \<Rightarrow> (string \<times> jsval) list) \<Rightarrow> header_source \<Rightarrow> js_error + headers" where
  "from_headers ph thing =
     (case thing of Instance self \<Rightarrow> Inr self | Raw v \<Rightarrow> new_AxiosHeaders ph v)"

text \<open>
  The accessor that \<open>AxiosHeaders.accessor\<close> builds for Content-Type:
  \<open>setContentType(a, b, c)\<close> is \<open>this.set('Content-Type', a, b, c)\<close>.
\<close>

definition setContentType ::
  "(string \<Rightarrow> (string \<times> jsval) list) \<Rightarrow> headers \<Rightarrow> jsval \<Rightarrow> jsval \<Rightarrow> headers \<times> js_error option" where
  "setContentType ph self v rewrite = set_header ph self (JStr ''Content-Type'') v rewrite"


text \<open>The key a new entry gets when it is written under the name \<open>n\<close>.\<close>

definition stored_name :: "string \<Rightarrow> string" where
  "stored_name n = (if n \<in> set prototype_members then capitalize n else n)"


text \<open>A \<open>parseHeaders\<close> that finds no header line, for the concrete instances below.\<close>

definition parse_nothing :: "string \<Rightarrow> (string \<times> jsval) list" where
  "parse_nothing s = []"

section \<open>InterceptorManager\<close>

text \<open>
  An entry as \<open>use\<close> stores it. The two handlers are kept abstract here (\<open>'h\<close>);
  \<open>synchronous\<close> is the truthiness of \<open>options.synchronous\<close>, and \<open>runWhen\<close> is a function
  of the config or absent.
\<close>

record ('h, 'c) interceptor =
  fulfilled :: 'h
  rejected :: 'h
  synchronous :: bool
  runWhen :: "('c \<Rightarrow> jsval) option"

record 'c use_options =
  opt_synchronous :: bool
  opt_runWhen :: "('c \<Rightarrow> jsval) option"

text \<open>\<open>this.handlers\<close>: an array whose slots hold an entry or \<open>null\<close>.\<close>

type_synonym ('h, 'c) handlers = "('h, 'c) interceptor option list"

text \<open>\<open>use(fulfilled, rejected, options)\<close>: the array afterwards and the index returned.\<close>

definition use ::
  "('h, 'c) handlers \<Rightarrow> 'h \<Rightarrow> 'h \<Rightarrow> 'c use_options option \<Rightarrow> ('h, 'c) handlers \<times> nat" where
  "use hs f r options =
     (let hs' = hs @ [Some \<lparr> fulfilled = f, rejected = r,
                 synchronous = (case options of Some opts \<Rightarrow> opt_synchronous opts | None \<Rightarrow> False),
                 runWhen = (case options of Some opts \<Rightarrow> opt_runWhen opts | None \<Rightarrow> None) \<rparr>]
      in (hs', length hs' - 1))"

text \<open>\<open>eject(id)\<close>: \<open>this.handlers[id]\<close> is falsy for a \<open>null\<close> slot and outside the array.\<close>

definition eject :: "('h, 'c) handlers \<Rightarrow> int \<Rightarrow> ('h, 'c) handlers" where
  "eject hs ident =
     (if 0 \<le> ident \<and> nat ident < length hs \<and> hs ! nat ident \<noteq> None
      then hs[nat ident := None] else hs)"

definition clear :: "('h, 'c) handlers \<Rightarrow> ('h, 'c) handlers" where
  "clear hs = []"

text \<open>
  Modelled from the spec: \<open>utils.forEach\<close> is not under src/; over an array it visits the
  slots in insertion order. \<open>forEach(fn)\<close> calls \<open>fn\<close> on every slot that is not \<open>null\<close>;
  the visitor acts on the state of its closure, passed here explicitly.
\<close>

definition forEach :: "('h, 'c) handlers \<Rightarrow> (('h, 'c) interceptor \<Rightarrow> 's \<Rightarrow> 's) \<Rightarrow> 's \<Rightarrow> 's" where
  "forEach hs fn s = fold (\<lambda>h s. case h of None \<Rightarrow> s | Some e \<Rightarrow> fn e s) hs s"

section \<open>Adapter resolution\<close>

text \<open>
  What the variable \<open>adapter\<close> of \<open>getAdapter\<close> can hold besides \<open>undefined\<close>: a function
  (identified by \<open>'a\<close>), \<open>null\<close> or \<open>false\<close>. A candidate is such a handle, or any other
  value, which the walk reads as the name \<open>String(nameOrAdapter)\<close>.
\<close>

datatype 'a adapter_val = Fn 'a | ANull | AFalse

datatype 'a candidate = Handle "'a adapter_val" | Name string

datatype 'a adapters_arg = One "'a candidate" | Many "'a candidate list"

definition isResolvedHandle :: "'a candidate \<Rightarrow> bool" where
  "isResolvedHandle c = (case c of Handle h \<Rightarrow> True | Name n \<Rightarrow> False)"

definition digit_char :: "nat \<Rightarrow> char" where
  "digit_char d = ''0123456789'' ! d"

fun show_nat :: "nat \<Rightarrow> string" where
  "show_nat n = (if n < 10 then [digit_char n] else show_nat (n div 10) @ [digit_char (n mod 10)])"

declare show_nat.simps [simp del]

definition renderReason :: "string \<Rightarrow> string" where
  "renderReason reason = ''- '' @ reason"

text \<open>
  What \<open>getAdapter\<close> can return: an adapter function, or a value that the table
  \<open>knownAdapters\<close> inherits. The table is an object literal, so the lookup
  \<open>knownAdapters[key]\<close> falls through to \<open>Object.prototype\<close> when the table has no own
  property \<open>key\<close>. The key is in lower case, and \<open>constructor\<close> (the function \<open>Object\<close>)
  and \<open>__proto__\<close> (the object \<open>Object.prototype\<close> itself) are the only members of
  \<open>Object.prototype\<close> whose names are in lower case; any other key that is not an own
  property reads \<open>undefined\<close>.
\<close>

datatype 'a adapter_fn = Adapter 'a | Object_constructor | Object_prototype

definition inherited :: "string \<Rightarrow> 'a adapter_fn option" where
  "inherited key =
     (if key = ''constructor'' then Some Object_constructor
      else if key = ''__proto__'' then Some Object_prototype
      else None)"

text \<open>
  The \<open>for\<close> loop of \<open>getAdapter\<close> from index \<open>i\<close> on, over the candidates left, with the
  object \<open>rejectedReasons\<close>. \<open>known\<close> holds the own properties of the table
  \<open>knownAdapters\<close> (their values depend on the environment: http.js and xhr.js are not
  under src/). The split of a candidate into handle and name is the test
  \<open>isResolvedHandle\<close>. Both inherited values are truthy, so the loop breaks on them. The
  result is the error thrown, or the value the loop broke on (\<open>None\<close> when it ran to the
  end) with the reasons.
\<close>

fun getAdapter_loop ::
  "(string \<times> 'a adapter_val) list \<Rightarrow> nat \<Rightarrow> 'a candidate list \<Rightarrow> (string \<times> 'a adapter_val) list
     \<Rightarrow> js_error + ('a adapter_fn option \<times> (string \<times> 'a adapter_val) list)" where
  "getAdapter_loop known i [] rejectedReasons = Inr (None, rejectedReasons)"
| "getAdapter_loop known i (nameOrAdapter # rest) rejectedReasons =
     (case nameOrAdapter of
        Handle h \<Rightarrow>
          (case h of
             Fn f \<Rightarrow> Inr (Some (Adapter f), rejectedReasons)
           | _ \<Rightarrow> getAdapter_loop known (Suc i) rest
                    (assign rejectedReasons (''#'' @ show_nat i) h))
      | Name ident \<Rightarrow>
          (case map_of known (toLowerCase ident) of
             None \<Rightarrow>
               (case inherited (toLowerCase ident) of
                  None \<Rightarrow> Inl (AxiosError (''Unknown adapter '' @ [CHR 0x27] @ ident @ [CHR 0x27]) None)
                | Some m \<Rightarrow> Inr (Some m, rejectedReasons))
           | Some (Fn f) \<Rightarrow> Inr (Some (Adapter f), rejectedReasons)
           | Some h \<Rightarrow> getAdapter_loop known (Suc i) rest
                    (assign rejectedReasons (if ident \<noteq> [] then ident else ''#'' @ show_nat i) h)))"

definition getAdapter ::
  "(string \<times> 'a adapter_val) list \<Rightarrow> 'a adapters_arg \<Rightarrow> js_error + 'a adapter_fn" where
  "getAdapter known adapters =
     (let adapters = (case adapters of Many cs \<Rightarrow> cs | One c \<Rightarrow> [c]) in
      case getAdapter_loop known 0 adapters [] of
        Inl e \<Rightarrow> Inl e
      | Inr (Some f, rejectedReasons) \<Rightarrow> Inr f
      | Inr (None, rejectedReasons) \<Rightarrow>
          (let reasons = map (\<lambda>(ident, state). ''adapter '' @ ident @ '' '' @
                            (if state = AFalse then ''is not supported by the environment''
                             else ''is not available in the build'')) rejectedReasons;
               s = (if length adapters \<noteq> 0
                    then (if length reasons > 1
                          then ''since :'' @ [CHR 0x0A] @ join [CHR 0x0A] (map renderReason reasons)
                          else '' '' @ renderReason (case reasons of [] \<Rightarrow> ''undefined'' | r # rs \<Rightarrow> r))
                    else ''as no adapter specified'')
           in Inl (AxiosError (''There is no suitable adapter to dispatch the request '' @ s)
                     (Some ''ERR_NOT_SUPPORT''))))"

text \<open>A candidate the walk passes over: a sentinel, or a name whose builtin is a sentinel.\<close>

definition passed_over :: "(string \<times> 'a adapter_val) list \<Rightarrow> 'a candidate \<Rightarrow> bool" where
  "passed_over known c =
     (case c of
        Handle h \<Rightarrow> h = ANull \<or> h = AFalse
      | Name n \<Rightarrow> map_of known (toLowerCase n) = Some ANull \<or> map_of known (toLowerCase n) = Some AFalse)"

text \<open>A visitor for the concrete instances below: it records the \<open>fulfilled\<close> handler of each
  entry it is called on.\<close>

definition visit_fulfilled :: "('h, 'c) interceptor \<Rightarrow> 'h list \<Rightarrow> 'h list" where
  "visit_fulfilled e s = s @ [fulfilled e]"

section \<open>dispatchRequest\<close>

text \<open>
  Modelled from the spec: cancel/CancelToken.js is not under src/. A token has been
  signaled once it holds a reason, which is an error of the Canceled kind (here its
  message); \<open>throwIfRequested\<close> throws that reason.
\<close>

datatype cancel_token = Token_pending | Token_requested "string option"

definition throwIfRequested :: "cancel_token \<Rightarrow> js_error option" where
  "throwIfRequested t =
     (case t of Token_pending \<Rightarrow> None | Token_requested m \<Rightarrow> Some (CanceledError m))"

text \<open>
  The fields of a config that \<open>dispatchRequest\<close> reads or writes: \<open>cancelToken\<close> (absent or a
  token), \<open>signal\<close> (absent, or its flag \<open>aborted\<close>), \<open>headers\<close>, \<open>data\<close>, \<open>method\<close> and
  \<open>adapter\<close>. Adapter functions are identified by numbers; \<open>transformRequest\<close> and
  \<open>transformResponse\<close> are read through the collaborators below.
\<close>

record config =
  cancelToken :: "cancel_token option"
  signal :: "bool option"
  headers :: header_source
  data :: jsval
  http_method :: jsval
  adapter :: "nat adapters_arg option"

record response =
  resp_data :: jsval
  resp_headers :: header_source
  resp_status :: nat

text \<open>
  What a deferred result of \<open>dispatchRequest\<close> rejects with: an error value and its
  \<open>response\<close> property when it carries one. An error thrown inside a continuation rejects
  with that error, which has no response.
\<close>

record reason =
  reason_error :: js_error
  reason_response :: "response option"

definition thrown :: "js_error \<Rightarrow> reason" where
  "thrown e = \<lparr> reason_error = e, reason_response = None \<rparr>"

text \<open>
  Modelled from the spec: cancel/isCancel.js is not under src/. The Canceled error kind is
  distinguished from all other failures.
\<close>

definition isCancel :: "reason \<Rightarrow> bool" where
  "isCancel r = (case reason_error r of CanceledError m \<Rightarrow> True | _ \<Rightarrow> False)"

datatype ('e, 'v) outcome = Fulfilled 'v | Rejected 'e

text \<open>
  An adapter call either throws, or returns a deferred result. The result is given by
  how it settles, together with the config object as it stands at that moment: the token
  or the signal may have been signaled while the request was in flight.
\<close>

datatype adapter_result =
    Adapter_throws js_error
  | Adapter_settles "(reason, response) outcome" config

text \<open>
  The collaborators that are not under src/: \<open>parseHeaders\<close>; \<open>transformData\<close> applied to
  the request (\<open>transformData.call(config, config.transformRequest)\<close>: the data it returns
  or the error it throws, and the header container as the transforms leave it) and to a
  response (\<open>transformData.call(config, config.transformResponse, response)\<close>); the
  table \<open>knownAdapters\<close>; \<open>defaults.adapter\<close>; and the adapter functions.
\<close>

record env =
  parseHeaders :: "string \<Rightarrow> (string \<times> jsval) list"
  transformRequest :: "config \<Rightarrow> headers \<Rightarrow> (js_error + jsval) \<times> headers"
  transformResponse :: "config \<Rightarrow> response \<Rightarrow> js_error + jsval"
  knownAdapters :: "(string \<times> nat adapter_val) list"
  defaults_adapter :: "nat adapters_arg"
  invoke :: "nat \<Rightarrow> config \<Rightarrow> adapter_result"

text \<open>\<open>throwIfCancellationRequested(config)\<close>: the error thrown, if any.\<close>

definition throwIfCancellationRequested :: "config \<Rightarrow> js_error option" where
  "throwIfCancellationRequested config =
     (case (case cancelToken config of Some t \<Rightarrow> throwIfRequested t | None \<Rightarrow> None) of
        Some e \<Rightarrow> Some e
      | None \<Rightarrow>
          (case signal config of
             Some aborted \<Rightarrow> if aborted then Some (CanceledError None) else None
           | None \<Rightarrow> None))"

text \<open>\<open>config.adapter || defaults.adapter\<close>: \<open>null\<close>, \<open>false\<close> and the empty string are falsy.\<close>

definition adapter_or_default :: "env \<Rightarrow> config \<Rightarrow> nat adapters_arg" where
  "adapter_or_default E config =
     (case adapter config of
        None \<Rightarrow> defaults_adapter E
      | Some (One (Handle ANull)) \<Rightarrow> defaults_adapter E
      | Some (One (Handle AFalse)) \<Rightarrow> defaults_adapter E
      | Some (One (Name [])) \<Rightarrow> defaults_adapter E
      | Some a \<Rightarrow> a)"

definition onAdapterResolution :: "env \<Rightarrow> config \<Rightarrow> response \<Rightarrow> (reason, response) outcome" where
  "onAdapterResolution E config resp =
     (case throwIfCancellationRequested config of
        Some e \<Rightarrow> Rejected (thrown e)
      | None \<Rightarrow>
          (case transformResponse E config resp of
             Inl e \<Rightarrow> Rejected (thrown e)
           | Inr d \<Rightarrow>
               (case from_headers (parseHeaders E) (resp_headers resp) of
                  Inl e \<Rightarrow> Rejected (thrown e)
                | Inr h \<Rightarrow> Fulfilled (resp\<lparr> resp_data := d, resp_headers := Instance h \<rparr>))))"

definition onAdapterRejection :: "env \<Rightarrow> config \<Rightarrow> reason \<Rightarrow> (reason, response) outcome" where
  "onAdapterRejection E config r =
     (if \<not> isCancel r then
        (case throwIfCancellationRequested config of
           Some e \<Rightarrow> Rejected (thrown e)
         | None \<Rightarrow>
             (case reason_response r of
                Some resp \<Rightarrow>
                  (case transformResponse E config resp of
                     Inl e \<Rightarrow> Rejected (thrown e)
                   | Inr d \<Rightarrow>
                       (case from_headers (parseHeaders E) (resp_headers resp) of
                          Inl e \<Rightarrow> Rejected (thrown e)
                        | Inr h \<Rightarrow>
                            Rejected (r\<lparr> reason_response :=
                              Some (resp\<lparr> resp_data := d, resp_headers := Instance h \<rparr>) \<rparr>)))
              | None \<Rightarrow> Rejected r))
      else Rejected r)"

text \<open>
  \<open>dispatchRequest(config)\<close>. The config object is mutated in place; the result is the
  object as the synchronous part of the call leaves it (the one the adapter is called
  with, when it is called), and either the error thrown or the deferred result returned.
  In \<open>adapter(config).then(..)\<close>, an adapter function is called through \<open>invoke\<close>;
  \<open>Object(config)\<close> returns the config object, which has no method \<open>then\<close>, and
  \<open>Object.prototype\<close> is not callable: both end in a TypeError of the engine.
\<close>

datatype dispatch_result = Throws js_error | Promise "(reason, response) outcome"

definition dispatchRequest :: "env \<Rightarrow> config \<Rightarrow> config \<times> dispatch_result" where
  "dispatchRequest E config =
     (case throwIfCancellationRequested config of
        Some e \<Rightarrow> (config, Throws e)
      | None \<Rightarrow>
     (case from_headers (parseHeaders E) (headers config) of
        Inl e \<Rightarrow> (config, Throws e)
      | Inr h \<Rightarrow>
     (case transformRequest E (config\<lparr> headers := Instance h \<rparr>) h of
        (Inl e, h') \<Rightarrow> (config\<lparr> headers := Instance h' \<rparr>, Throws e)
      | (Inr d, h') \<Rightarrow>
     (case (if http_method config \<in> set [JStr ''post'', JStr ''put'', JStr ''patch'']
            then setContentType (parseHeaders E) h'
                   (JStr ''application/x-www-form-urlencoded'') (JBool False)
            else (h', None)) of
        (h'', Some e) \<Rightarrow> (config\<lparr> headers := Instance h'', data := d \<rparr>, Throws e)
      | (h'', None) \<Rightarrow>
     (let config' = config\<lparr> headers := Instance h'', data := d \<rparr> in
      case getAdapter (knownAdapters E) (adapter_or_default E config') of
        Inl e \<Rightarrow> (config', Throws e)
      | Inr Object_constructor \<Rightarrow>
          (config', Throws (TypeError ''adapter(...).then is not a function''))
      | Inr Object_prototype \<Rightarrow>
          (config', Throws (TypeError ''adapter is not a function''))
      | Inr (Adapter a) \<Rightarrow>
          (case invoke E a config' of
             Adapter_throws e \<Rightarrow> (config', Throws e)
           | Adapter_settles (Fulfilled resp) config'' \<Rightarrow>
               (config', Promise (onAdapterResolution E config'' resp))
           | Adapter_settles (Rejected r) config'' \<Rightarrow>
               (config', Promise (onAdapterRejection E config'' r))))))))"

text \<open>
  Collaborators for the concrete instances below: no header block parser, a request
  transform that returns the data as it is, a response transform that wraps the data in an
  array, the builtin \<open>xhr\<close> present and \<open>http\<close> unsupported, and an adapter that resolves
  with the config's data and leaves the config as it is.
\<close>

definition echo_env :: env where
  "echo_env = \<lparr>
     parseHeaders = parse_nothing,
     transformRequest = (\<lambda>c h. (Inr (data c), h)),
     transformResponse = (\<lambda>c r. Inr (JArr [resp_data r])),
     knownAdapters = [(''http'', AFalse), (''xhr'', Fn 0)],
     defaults_adapter = Many [Name ''xhr'', Name ''http''],
     invoke = (\<lambda>a c. Adapter_settles
                 (Fulfilled \<lparr> resp_data = data c, resp_headers = Raw (JObj []), resp_status = 200 \<rparr>) c) \<rparr>"

definition post_config :: config where
  "post_config = \<lparr>
     cancelToken = None, signal = None,
     headers = Instance [(''content-type'', JBool False)],
     data = JStr ''a=1'', http_method = JStr ''post'', adapter = None \<rparr>"

section \<open>Axios.request\<close>

text \<open>
  The values that flow through the interceptor chain are untyped in the source: configs,
  responses and errors alike. They are the values \<open>'a\<close> of the program, the TypeError the
  engine raises when \<open>undefined\<close> is called, and promises. A promise is given by how it
  settles; timing is not modelled.
\<close>

datatype 'a val =
    Val 'a
  | Engine_TypeError string
  | PromiseObj "('a val, 'a val) outcome"

text \<open>A call returns a value or throws one. A handler is \<open>undefined\<close> or a function.\<close>

datatype 'v completion = Return 'v | Throw 'v

type_synonym 'a handler = "('a val \<Rightarrow> 'a val completion) option"

text \<open>
  \<open>Promise.resolve(v)\<close> adopts a promise and fulfils with anything else; the promise that
  \<open>then\<close> returns settles with what the handler called returns (adopting a promise) or
  throws, and passes the settlement through when the handler is not a function.
\<close>

definition resolve :: "'a val \<Rightarrow> ('a val, 'a val) outcome" where
  "resolve v = (case v of PromiseObj p \<Rightarrow> p | _ \<Rightarrow> Fulfilled v)"

definition settle :: "'a val completion \<Rightarrow> ('a val, 'a val) outcome" where
  "settle c = (case c of Return v \<Rightarrow> resolve v | Throw e \<Rightarrow> Rejected e)"

definition then_promise ::
  "('a val, 'a val) outcome \<Rightarrow> 'a handler \<Rightarrow> 'a handler \<Rightarrow> ('a val, 'a val) outcome" where
  "then_promise p onFulfilled onRejected =
     (case p of
        Fulfilled v \<Rightarrow> (case onFulfilled of None \<Rightarrow> Fulfilled v | Some f \<Rightarrow> settle (f v))
      | Rejected e \<Rightarrow> (case onRejected of None \<Rightarrow> Rejected e | Some f \<Rightarrow> settle (f e)))"

text \<open>\<open>while (i < len) { promise = promise.then(chain[i++], chain[i++]); }\<close>\<close>

fun then_chain :: "('a val, 'a val) outcome \<Rightarrow> 'a handler list \<Rightarrow> ('a val, 'a val) outcome" where
  "then_chain promise [] = promise"
| "then_chain promise [f] = then_promise promise f None"
| "then_chain promise (f # r # rest) = then_chain (then_promise promise f r) rest"

text \<open>
  The instance: \<open>this.interceptors.request\<close> and \<open>this.interceptors.response\<close>. A
  \<open>runWhen\<close> function reads the config, a value of the program.
\<close>

record 'a axios =
  interceptors_request :: "('a handler, 'a) handlers"
  interceptors_response :: "('a handler, 'a) handlers"

text \<open>
  The two visitors of the chain build. The first acts on the flag
  \<open>synchronousRequestInterceptors\<close> and the array \<open>requestInterceptorChain\<close>.
\<close>

definition unshiftRequestInterceptors ::
  "'a \<Rightarrow> ('a handler, 'a) interceptor \<Rightarrow> bool \<times> 'a handler list \<Rightarrow> bool \<times> 'a handler list" where
  "unshiftRequestInterceptors config interceptor st =
     (let (synchronousRequestInterceptors, requestInterceptorChain) = st in
      if (case runWhen interceptor of Some rw \<Rightarrow> rw config = JBool False | None \<Rightarrow> False)
      then (synchronousRequestInterceptors, requestInterceptorChain)
      else (synchronousRequestInterceptors \<and> synchronous interceptor,
            fulfilled interceptor # rejected interceptor # requestInterceptorChain))"

definition pushResponseInterceptors ::
  "('a handler, 'a) interceptor \<Rightarrow> 'a handler list \<Rightarrow> 'a handler list" where
  "pushResponseInterceptors interceptor responseInterceptorChain =
     responseInterceptorChain @ [fulfilled interceptor, rejected interceptor]"

text \<open>Calling a handler; calling \<open>undefined\<close> throws a TypeError.\<close>

definition call_handler :: "string \<Rightarrow> 'a handler \<Rightarrow> 'a val \<Rightarrow> 'a val completion" where
  "call_handler msg h v = (case h of None \<Rightarrow> Throw (Engine_TypeError msg) | Some f \<Rightarrow> f v)"

text \<open>
  The loop of the synchronous path over \<open>requestInterceptorChain\<close>: \<open>Inr newConfig\<close> when
  the loop ends or breaks, \<open>Inl e\<close> when \<open>onRejected.call(this, error)\<close> throws \<open>e\<close> out of
  \<open>request\<close>.
\<close>

fun run_request_interceptors :: "'a handler list \<Rightarrow> 'a val \<Rightarrow> 'a val + 'a val" where
  "run_request_interceptors [] newConfig = Inr newConfig"
| "run_request_interceptors (onFulfilled # chain) newConfig =
     (let onRejected = (case chain of [] \<Rightarrow> None | r # rest \<Rightarrow> r) in
      case call_handler ''onFulfilled is not a function'' onFulfilled newConfig of
        Return c \<Rightarrow> run_request_interceptors (tl chain) c
      | Throw error \<Rightarrow>
          (case call_handler ''Cannot read properties of undefined (reading 'call')''
                  onRejected error of
             Return v \<Rightarrow> Inr newConfig
           | Throw e \<Rightarrow> Inl e))"

text \<open>
  \<open>dispatchRequest\<close> as \<open>request\<close> uses it: called with the final config, it throws or
  returns a promise.
\<close>

datatype 'a dispatched = Dispatch_throws "'a val" | Dispatch_promise "('a val, 'a val) outcome"

definition dispatch_handler :: "('a val \<Rightarrow> 'a dispatched) \<Rightarrow> 'a handler" where
  "dispatch_handler dispatch =
     Some (\<lambda>c. case dispatch c of
                  Dispatch_throws e \<Rightarrow> Throw e
                | Dispatch_promise p \<Rightarrow> Return (PromiseObj p))"

datatype 'a request_result = Request_throws "'a val" | Request_promise "('a val, 'a val) outcome"

text \<open>
  \<open>request\<close>, from the chain build on (lines 103 to 208). \<open>config\<close> is the merged config
  with its headers flattened: the steps before (mergeConfig, the validator, the header
  merge) use helpers that are not under src/ and are the same on both paths.
\<close>

definition request :: "('a val \<Rightarrow> 'a dispatched) \<Rightarrow> 'a axios \<Rightarrow> 'a \<Rightarrow> 'a request_result" where
  "request dispatch this config =
     (let (synchronousRequestInterceptors, requestInterceptorChain) =
            forEach (interceptors_request this) (unshiftRequestInterceptors config) (True, []);
          responseInterceptorChain =
            forEach (interceptors_response this) pushResponseInterceptors []
      in
      if \<not> synchronousRequestInterceptors then
        (let chain = requestInterceptorChain @ [dispatch_handler dispatch, None]
                       @ responseInterceptorChain
         in Request_promise (then_chain (resolve (Val config)) chain))
      else
        (case run_request_interceptors requestInterceptorChain (Val config) of
           Inl e \<Rightarrow> Request_throws e
         | Inr newConfig \<Rightarrow>
             (case dispatch newConfig of
                Dispatch_throws error \<Rightarrow> Request_promise (Rejected error)
              | Dispatch_promise promise \<Rightarrow>
                  Request_promise (then_chain promise responseInterceptorChain))))"

text \<open>
  For the statements below: the live entries of a manager in registration order, the entries
  that \<open>runWhen\<close> excludes for a config, and the handler pairs of a list of entries.
\<close>

definition live :: "('h, 'c) handlers \<Rightarrow> ('h, 'c) interceptor list" where
  "live hs = concat (map (\<lambda>h. case h of None \<Rightarrow> [] | Some e \<Rightarrow> [e]) hs)"

definition excluded :: "'c \<Rightarrow> ('h, 'c) interceptor \<Rightarrow> bool" where
  "excluded config e = (case runWhen e of Some rw \<Rightarrow> rw config = JBool False | None \<Rightarrow> False)"

definition included :: "'c \<Rightarrow> ('h, 'c) handlers \<Rightarrow> ('h, 'c) interceptor list" where
  "included config hs = filter (\<lambda>e. \<not> excluded config e) (live hs)"

definition handler_pairs :: "('h, 'c) interceptor list \<Rightarrow> 'h list" where
  "handler_pairs es = concat (map (\<lambda>e. [fulfilled e, rejected e]) es)"

text \<open>
  The config that reaches \<open>dispatchRequest\<close> when every fulfilled handler of the request
  chain is a function that returns a value which is not a promise; \<open>None\<close> when one of
  them is missing, throws or returns a promise.
\<close>

fun fulfil_all :: "'a handler list \<Rightarrow> 'a val \<Rightarrow> 'a val option" where
  "fulfil_all [] c = Some c"
| "fulfil_all (f # chain) c =
     (case f of
        None \<Rightarrow> None
      | Some g \<Rightarrow>
          (case g c of
             Return (PromiseObj p) \<Rightarrow> None
           | Return c' \<Rightarrow> fulfil_all (tl chain) c'
           | Throw e \<Rightarrow> None))"

text \<open>
  The interceptors of a list run in order, each fulfilled handler on the value the one
  before returned: the value the last one returns; \<open>None\<close> when a fulfilled handler is
  missing, throws or returns a promise.
\<close>

fun run_fulfilled :: "('a handler, 'c) interceptor list \<Rightarrow> 'a val \<Rightarrow> 'a val option" where
  "run_fulfilled [] c = Some c"
| "run_fulfilled (e # es) c =
     (case fulfilled e of
        None \<Rightarrow> None
      | Some g \<Rightarrow>
          (case g c of
             Return (PromiseObj p) \<Rightarrow> None
           | Return c' \<Rightarrow> run_fulfilled es c'
           | Throw x \<Rightarrow> None))"

declare run_fulfilled.simps [simp del]

text \<open>
  Handlers for the concrete instances below: an interceptor whose fulfilled handler
  appends a tag to a config that is a list of numbers, an interceptor whose fulfilled
  handler throws and whose rejected handler returns, and a \<open>dispatchRequest\<close> that resolves
  with the config it is given.
\<close>

definition tag_handler :: "nat \<Rightarrow> nat list handler" where
  "tag_handler n = Some (\<lambda>v. case v of Val xs \<Rightarrow> Return (Val (xs @ [n])) | _ \<Rightarrow> Return v)"

definition tagging ::
  "nat \<Rightarrow> bool \<Rightarrow> (nat list \<Rightarrow> jsval) option \<Rightarrow> (nat list handler, nat list) interceptor" where
  "tagging n s rw = \<lparr> fulfilled = tag_handler n, rejected = None, synchronous = s, runWhen = rw \<rparr>"

definition throwing :: "bool \<Rightarrow> (nat list handler, nat list) interceptor" where
  "throwing s = \<lparr> fulfilled = Some (\<lambda>c. Throw (Val [0])), rejected = Some (\<lambda>e. Return e),
                  synchronous = s, runWhen = None \<rparr>"

definition echo_dispatch :: "'a val \<Rightarrow> 'a dispatched" where
  "echo_dispatch c = Dispatch_promise (Fulfilled c)"

definition never :: "nat list \<Rightarrow> jsval" where
  "never c = JBool False"

text \<open>A response interceptor whose rejected handler recovers, and a \<open>dispatchRequest\<close>
  that throws.\<close>

definition recovering :: "(nat list handler, nat list) interceptor" where
  "recovering = \<lparr> fulfilled = None, rejected = Some (\<lambda>e. Return e),
                   synchronous = False, runWhen = None \<rparr>"

definition failing_dispatch :: "nat list val \<Rightarrow> nat list dispatched" where
  "failing_dispatch c = Dispatch_throws (Val [1])"

text \<open>
  An interceptor without a fulfilled handler, an interceptor whose fulfilled handler
  returns a promise, and a \<open>dispatchRequest\<close> that resolves with a config that is a plain
  value and rejects any other.
\<close>

definition missing :: "bool \<Rightarrow> (nat list handler, nat list) interceptor" where
  "missing s = \<lparr> fulfilled = None, rejected = Some (\<lambda>e. Return e),
                 synchronous = s, runWhen = None \<rparr>"

definition deferring :: "bool \<Rightarrow> (nat list handler, nat list) interceptor" where
  "deferring s = \<lparr> fulfilled = Some (\<lambda>c. Return (PromiseObj (Fulfilled (Val [9])))),
                   rejected = None, synchronous = s, runWhen = None \<rparr>"

definition strict_dispatch :: "nat list val \<Rightarrow> nat list dispatched" where
  "strict_dispatch c =
     (case c of
        Val xs \<Rightarrow> Dispatch_promise (Fulfilled (Val xs))
      | _ \<Rightarrow> Dispatch_promise (Rejected (Engine_TypeError ''config is not an object'')))"

text \<open>The same collaborators with an adapter that rejects with a network error, the abort
  signal having fired while the request was in flight.\<close>

definition late_cancel_env :: env where
  "late_cancel_env = echo_env\<lparr> invoke := (\<lambda>a c. Adapter_settles
       (Rejected \<lparr> reason_error = Error ''Network Error'', reason_response = None \<rparr>)
       (c\<lparr> signal := Some True \<rparr>)) \<rparr>"

section \<open>Verified properties\<close>

subsection \<open>Header names and the overwrite policy\<close>

lemma toLowerChar_idem: "toLowerChar (toLowerChar c) = toLowerChar c"
  by (auto simp: toLowerChar_def)

lemma toLowerChar_toUpperChar: "toLowerChar (toUpperChar c) = toLowerChar c"
  by (auto simp: toLowerChar_def toUpperChar_def)

lemma toLowerCase_idem: "toLowerCase (toLowerCase s) = toLowerCase s"
  by (simp add: toLowerCase_def toLowerChar_idem)

lemma toLowerCase_Nil_iff: "toLowerCase s = [] \<longleftrightarrow> s = []"
  by (simp add: toLowerCase_def)

lemma toLowerCase_capitalize: "toLowerCase (capitalize s) = toLowerCase s"
  by (cases s) (simp_all add: capitalize_def toLowerCase_def toLowerChar_toUpperChar)

lemma toLowerCase_stored_name: "toLowerCase (stored_name n) = toLowerCase n"
  by (simp add: stored_name_def toLowerCase_capitalize)

lemma dropWhile_none: "\<forall>c \<in> set s. \<not> P c \<Longrightarrow> dropWhile P s = s"
  by (cases s) auto

lemma trim_no_space: "\<forall>c \<in> set s. \<not> isSpace c \<Longrightarrow> trim s = s"
  by (simp add: trim_def dropWhile_none)

lemma trim_idem: "trim (trim s) = trim s"
proof -
  define t where "t = dropWhile isSpace s"
  define u where "u = rev (dropWhile isSpace (rev t))"
  have tu: "t = u @ rev (takeWhile isSpace (rev t))"
    unfolding u_def using takeWhile_dropWhile_id[of isSpace "rev t"]
    by (metis rev_append rev_rev_ident)
  have lead: "dropWhile isSpace u = u"
  proof (cases u)
    case Nil
    then show ?thesis by simp
  next
    case (Cons c cs)
    with tu have "t \<noteq> []" and "hd t = c"
      by (metis append_Cons list.distinct(1), metis append_Cons list.sel(1))
    moreover have "t \<noteq> [] \<Longrightarrow> \<not> isSpace (hd t)"
      unfolding t_def by (rule hd_dropWhile)
    ultimately show ?thesis using Cons by simp
  qed
  have rear: "dropWhile isSpace (rev u) = rev u"
    by (simp add: u_def)
  have "trim s = u"
    by (simp add: trim_def t_def u_def)
  moreover have "trim u = u"
    by (simp add: trim_def lead rear)
  ultimately show ?thesis by simp
qed

lemma headerNameChars_no_space: "c \<in> set headerNameChars \<Longrightarrow> \<not> isSpace c"
  by (auto simp: headerNameChars_def isSpace_def)

lemma valid_name_trim:
  assumes "isValidHeaderName X"
  shows "trim (trim X) = trim X" and "trim X \<noteq> []"
  using assms by (auto simp: isValidHeaderName_def trim_idem)

lemma isValid_trim: "isValidHeaderName (trim X) = isValidHeaderName X"
  by (simp add: isValidHeaderName_def trim_idem)

lemma find_SomeD: "find P xs = Some x \<Longrightarrow> x \<in> set xs \<and> P x"
  by (induction xs) (auto split: if_splits)

lemma findKey_Some:
  "findKey self n = Some k \<Longrightarrow> k \<in> set (keys self) \<and> toLowerCase k = toLowerCase n"
  unfolding findKey_def by (drule find_SomeD) simp

lemma findKey_None:
  "findKey self n = None \<longleftrightarrow> (\<forall>k \<in> set (keys self). toLowerCase k \<noteq> toLowerCase n)"
  by (auto simp: findKey_def find_None_iff)

lemma findKey_cong_keys: "keys a = keys b \<Longrightarrow> findKey a n = findKey b n"
  by (simp add: findKey_def)

lemma findKey_lower: "findKey self (toLowerCase n) = findKey self n"
  by (simp add: findKey_def toLowerCase_idem)

lemma findKey_variant:
  "toLowerCase a = toLowerCase b \<Longrightarrow> findKey self a = findKey self b"
  by (simp add: findKey_def)

lemma keys_assign:
  "keys (assign self k v) = (if k \<in> set (keys self) then keys self else keys self @ [k])"
  by (induction self k v rule: assign.induct) (auto simp: keys_def)

lemma read_prop_assign:
  "read_prop (assign self k v) k' = (if k' = k then v else read_prop self k')"
  by (induction self k v rule: assign.induct) (auto simp: read_prop_def)

lemma findKey_append_new:
  "toLowerCase k = toLowerCase n \<Longrightarrow> keys b = keys a @ [k] \<Longrightarrow> findKey b n = Some k"
  by (simp add: findKey_def)

lemma findKey_assign_old:
  "findKey self n = Some k \<Longrightarrow> findKey (assign self k v) n' = findKey self n'"
  by (rule findKey_cong_keys) (auto simp: keys_assign dest: findKey_Some)

lemma findKey_assign_new:
  "findKey self n = None \<Longrightarrow> toLowerCase n' = toLowerCase n \<Longrightarrow> toLowerCase k = toLowerCase n \<Longrightarrow>
     findKey (assign self k v) n' = Some k"
  by (rule findKey_append_new[where a = self]) (auto simp: keys_assign findKey_None)

text \<open>The assignment \<open>self[name] = value\<close>, by the case of the name.\<close>

lemma proto_not_member: "''__proto__'' \<notin> set prototype_members"
  by (simp add: prototype_members_def)

lemma write_prop_own: "k \<in> set (keys self) \<Longrightarrow> write_prop self k v = assign self k v"
  by (simp add: write_prop_def keys_def)

lemma write_prop_new:
  "k \<notin> set (keys self) \<Longrightarrow> k \<noteq> ''__proto__'' \<Longrightarrow>
     write_prop self k v = assign self (stored_name k) v"
  by (simp add: write_prop_def keys_def stored_name_def)

lemma write_prop_proto:
  "''__proto__'' \<notin> set (keys self) \<Longrightarrow> write_prop self ''__proto__'' v = self"
  by (simp add: write_prop_def keys_def proto_not_member)

lemma write_prop_unmatched:
  assumes "findKey self n = None"
  shows "write_prop self n v = (if n = ''__proto__'' then self else assign self (stored_name n) v)"
proof -
  from assms have "n \<notin> set (keys self)" by (auto simp: findKey_None)
  then show ?thesis by (auto simp: write_prop_new write_prop_proto)
qed


lemma setHeader_name:
  assumes "n \<noteq> []" "trim n = n"
  shows "setHeader self v (JStr n) r =
     Inr (case findKey self n of
        None \<Rightarrow> write_prop self n (normalizeValue v)
      | Some k \<Rightarrow>
          if read_prop self k = JUndefined \<or> r = JBool True
              \<or> (r = JUndefined \<and> read_prop self k \<noteq> JBool False)
          then assign self k (normalizeValue v) else self)"
  using assms
  by (auto simp: setHeader_def normalizeHeader_def toLowerCase_Nil_iff findKey_lower Let_def
      write_prop_own split: option.splits dest: findKey_Some)

lemma set_header_name:
  assumes "isValidHeaderName X"
  shows "set_header ph self (JStr X) v r =
     (case findKey self (trim X) of
        None \<Rightarrow> write_prop self (trim X) (normalizeValue v)
      | Some k \<Rightarrow>
          if read_prop self k = JUndefined \<or> r = JBool True
              \<or> (r = JUndefined \<and> read_prop self k \<noteq> JBool False)
          then assign self k (normalizeValue v) else self, None)"
  using valid_name_trim[OF assms] assms
  by (simp add: set_header_def setHeader_name isValid_trim)

lemma get_name:
  assumes "trim M \<noteq> []"
  shows "get self (JStr M) None =
     Inr (case findKey self (trim M) of Some k \<Rightarrow> read_prop self k | None \<Rightarrow> JUndefined)"
proof -
  from assms have "M \<noteq> []" by (auto simp: trim_def)
  with assms show ?thesis
    by (auto simp: get_def normalizeHeader_def toLowerCase_Nil_iff findKey_lower Let_def
        split: option.splits)
qed

lemma has_name:
  assumes "trim M \<noteq> []"
  shows "has self (JStr M) None =
     (case findKey self (trim M) of Some k \<Rightarrow> read_prop self k \<noteq> JUndefined | None \<Rightarrow> False)"
proof -
  from assms have "M \<noteq> []" by (auto simp: trim_def)
  with assms show ?thesis
    by (auto simp: has_def normalizeHeader_def toLowerCase_Nil_iff findKey_lower Let_def
        split: option.splits)
qed

lemma has_iff_get:
  "trim M \<noteq> [] \<Longrightarrow> has self (JStr M) None \<longleftrightarrow> get self (JStr M) None \<noteq> Inr JUndefined"
  by (simp add: has_name get_name split: option.splits)

lemma get_after_set:
  assumes "isValidHeaderName N" and "trim N \<noteq> ''__proto__''"
    and "toLowerCase (trim M) = toLowerCase (trim N)"
  shows "get (fst (set_header ph self (JStr N) v r)) (JStr M) None =
     (if r = JBool True \<or> (r = JUndefined \<and> get self (JStr N) None \<noteq> Inr (JBool False))
          \<or> \<not> has self (JStr N) None
      then Inr (normalizeValue v) else get self (JStr N) None)"
proof -
  have n: "trim N \<noteq> []" using valid_name_trim(2)[OF assms(1)] .
  have m: "trim M \<noteq> []" using n assms(3) toLowerCase_Nil_iff by metis
  have fk: "findKey s (trim M) = findKey s (trim N)" for s
    using assms(3) by (rule findKey_variant)
  show ?thesis
  proof (cases "findKey self (trim N)")
    case None
    then show ?thesis
      using assms(2,3)
      by (simp add: set_header_name[OF assms(1)] get_name[OF m] get_name[OF n] has_name[OF n]
          write_prop_unmatched findKey_assign_new toLowerCase_stored_name read_prop_assign)
  next
    case (Some k)
    then show ?thesis
      by (simp add: set_header_name[OF assms(1)] get_name[OF m] get_name[OF n] has_name[OF n]
          fk findKey_assign_old read_prop_assign)
  qed
qed

lemma set_header_written:
  assumes "isValidHeaderName X" and "trim X \<noteq> ''__proto__''"
  shows "set_header ph self (JStr X) v r =
     (if r = JBool True \<or> (r = JUndefined \<and> get self (JStr X) None \<noteq> Inr (JBool False))
          \<or> \<not> has self (JStr X) None
      then assign self (case findKey self (trim X) of Some k \<Rightarrow> k | None \<Rightarrow> stored_name (trim X))
             (normalizeValue v)
      else self, None)"
  using valid_name_trim(2)[OF assms(1)] assms(2)
  by (simp add: set_header_name[OF assms(1)] get_name has_name write_prop_unmatched
      split: option.splits)

lemma get_after_two_sets:
  assumes "isValidHeaderName X" and "trim X \<noteq> ''__proto__''"
    and "get self (JStr X) None \<noteq> Inr (JBool False) \<or> a = JBool False"
  shows "get (fst (set_header ph (fst (set_header ph self (JStr X) a JUndefined))
                   (JStr X) (JStr b) JUndefined)) (JStr X) None
         = (if a = JBool False then Inr (JBool False) else Inr (JStr b))"
proof -
  let ?s1 = "fst (set_header ph self (JStr X) a JUndefined)"
  have n: "trim X \<noteq> []" using valid_name_trim(2)[OF assms(1)] .
  have g1: "get ?s1 (JStr X) None = Inr (normalizeValue a)"
    using assms(3) by (auto simp: get_after_set[OF assms(1,2) refl])
  have h1: "a \<noteq> JBool False \<Longrightarrow> normalizeValue a \<noteq> JBool False"
    by (cases a rule: normalizeValue.cases) auto
  show ?thesis
    using h1 assms(3) by (auto simp: get_after_set[OF assms(1,2) refl] g1 has_iff_get[OF n])
qed

text \<open>
  The overwrite policy, for every valid header name but \<open>__proto__\<close>: \<open>set(X, v, rewrite)\<close>
  writes the normalized value exactly when \<open>rewrite\<close> is \<open>true\<close>, or \<open>rewrite\<close> is unset and
  the stored value is not \<open>false\<close>, or the container has no entry for \<open>X\<close> (\<open>has(X)\<close> is
  false: no key, or a key holding \<open>undefined\<close>); otherwise the container is unchanged.
  \<open>set(X, a); set(X, b)\<close> leaves \<open>b\<close> when the value stored before was not \<open>false\<close>, and
  \<open>set(X, false); set(X, b)\<close> leaves \<open>false\<close>.
\<close>

lemma set_overwrite_policy:
  assumes "isValidHeaderName X" and "trim X \<noteq> ''__proto__''"
  shows "set_header ph self (JStr X) v r =
           (if r = JBool True \<or> (r = JUndefined \<and> get self (JStr X) None \<noteq> Inr (JBool False))
                \<or> \<not> has self (JStr X) None
            then assign self (case findKey self (trim X) of Some k \<Rightarrow> k | None \<Rightarrow> stored_name (trim X))
                   (normalizeValue v)
            else self, None)
       \<and> get (fst (set_header ph self (JStr X) v r)) (JStr X) None =
           (if r = JBool True \<or> (r = JUndefined \<and> get self (JStr X) None \<noteq> Inr (JBool False))
                \<or> \<not> has self (JStr X) None
            then Inr (normalizeValue v) else get self (JStr X) None)
       \<and> (get self (JStr X) None \<noteq> Inr (JBool False) \<longrightarrow>
            get (fst (set_header ph (fst (set_header ph self (JStr X) (JStr a) JUndefined))
                   (JStr X) (JStr b) JUndefined)) (JStr X) None = Inr (JStr b))
       \<and> get (fst (set_header ph (fst (set_header ph self (JStr X) (JBool False) JUndefined))
                   (JStr X) (JStr b) JUndefined)) (JStr X) None = Inr (JBool False)"
proof (intro conjI impI)
  show "set_header ph self (JStr X) v r =
           (if r = JBool True \<or> (r = JUndefined \<and> get self (JStr X) None \<noteq> Inr (JBool False))
                \<or> \<not> has self (JStr X) None
            then assign self (case findKey self (trim X) of Some k \<Rightarrow> k | None \<Rightarrow> stored_name (trim X))
                   (normalizeValue v)
            else self, None)"
    by (rule set_header_written[OF assms])
  show "get (fst (set_header ph self (JStr X) v r)) (JStr X) None =
           (if r = JBool True \<or> (r = JUndefined \<and> get self (JStr X) None \<noteq> Inr (JBool False))
                \<or> \<not> has self (JStr X) None
            then Inr (normalizeValue v) else get self (JStr X) None)"
    by (rule get_after_set[OF assms refl])
  show "get (fst (set_header ph (fst (set_header ph self (JStr X) (JStr a) JUndefined))
                   (JStr X) (JStr b) JUndefined)) (JStr X) None = Inr (JStr b)"
    if "get self (JStr X) None \<noteq> Inr (JBool False)"
    using get_after_two_sets[OF assms, of self "JStr a" ph b] that by simp
  show "get (fst (set_header ph (fst (set_header ph self (JStr X) (JBool False) JUndefined))
                   (JStr X) (JStr b) JUndefined)) (JStr X) None = Inr (JBool False)"
    using get_after_two_sets[OF assms, of self "JBool False" ph b] by simp
qed

lemma valid_proto: "isValidHeaderName ''__proto__''" "trim ''__proto__'' = ''__proto__''"
  by (simp_all add: isValidHeaderName_def trim_def isSpace_def headerNameChars_def)

text \<open>
  Claim C2. The claim holds for every valid header name but one (the lemma above). For
  the name \<open>__proto__\<close>, which \<open>isValidHeaderName\<close> accepts, \<open>set\<close> never writes: with no
  entry stored, and even with \<open>rewrite\<close> \<open>true\<close>, the assignment \<open>self['__proto__'] = 'b'\<close>
  reaches the setter of \<open>Object.prototype\<close>, the container stays empty and \<open>get\<close> reads
  \<open>undefined\<close>.
\<close>

theorem set_proto_name_not_written:
  "isValidHeaderName ''__proto__''
   \<and> \<not> has [] (JStr ''__proto__'') None
   \<and> set_header parse_nothing [] (JStr ''__proto__'') (JStr ''b'') JUndefined = ([], None)
   \<and> set_header parse_nothing [] (JStr ''__proto__'') (JStr ''b'') (JBool True) = ([], None)
   \<and> get (fst (set_header parse_nothing [] (JStr ''__proto__'') (JStr ''b'') (JBool True)))
        (JStr ''__proto__'') None = Inr JUndefined"
proof -
  have f: "findKey [] ''__proto__'' = None"
    by (simp add: findKey_def keys_def)
  have s: "set_header parse_nothing [] (JStr ''__proto__'') (JStr ''b'') r = ([], None)" for r
    by (simp add: set_header_name[OF valid_proto(1)] valid_proto(2) f write_prop_unmatched)
  have t: "trim ''__proto__'' \<noteq> []"
    by (simp add: valid_proto(2))
  show ?thesis
    by (simp add: s valid_proto(1) has_name[OF t] get_name[OF t] valid_proto(2) f)
qed

subsection \<open>Header names: case-insensitive lookup and one key per name\<close>















lemma valid_Content_Type: "isValidHeaderName ''Content-Type''"
  by (simp add: isValidHeaderName_def trim_def isSpace_def headerNameChars_def)


lemma stored_names:
  "stored_name ''Content-Type'' = ''Content-Type''" "stored_name ''set'' = ''Set''"
  by (simp_all add: stored_name_def prototype_members_def capitalize_def toUpperChar_def)



text \<open>
  Claim C10 (as amended). In the single name form, a name that is an empty or
  white-space-only string (or the boolean \<open>false\<close>) makes \<open>set\<close> throw
  \<open>Error('header name must be a non-empty string')\<close> with the container unchanged; a name
  that is \<open>null\<close> or \<open>undefined\<close> is skipped by the guard \<open>header != null\<close>: \<open>set\<close> returns
  without throwing and without writing.
\<close>

theorem set_empty_name:
  "(trim s = [] \<longrightarrow>
      set_header ph self (JStr s) v r
        = (self, Some (Error ''header name must be a non-empty string'')))
   \<and> set_header ph self (JBool False) v r
        = (self, Some (Error ''header name must be a non-empty string''))
   \<and> set_header ph self JNull v r = (self, None)
   \<and> set_header ph self JUndefined v r = (self, None)"
  by (simp add: set_header_def setHeader_def normalizeHeader_def trim_def toLowerCase_def)

theorem set_empty_name_witness:
  "trim ''   '' = []
   \<and> set_header parse_nothing [(''X'', JStr ''a'')] (JStr ''   '') (JStr ''v'') JUndefined
        = ([(''X'', JStr ''a'')], Some (Error ''header name must be a non-empty string''))"
proof -
  have t: "trim ''   '' = []" by (simp add: trim_def isSpace_def)
  show ?thesis
    using set_empty_name[of "''   ''" parse_nothing "[(''X'', JStr ''a'')]" "JStr ''v''" JUndefined]
    by (simp add: t)
qed

text \<open>\<open>set(null, 'v')\<close> does not throw.\<close>

theorem set_null_name_counterexample:
  "set_header parse_nothing [] JNull (JStr ''v'') JUndefined = ([], None)
   \<and> snd (set_header parse_nothing [] JNull (JStr ''v'') JUndefined)
        \<noteq> Some (Error ''header name must be a non-empty string'')"
  by (simp add: set_header_def)

subsection \<open>InterceptorManager: removal by tombstone\<close>

lemma forEach_append: "forEach (xs @ ys) fn s = forEach ys fn (forEach xs fn s)"
  by (simp add: forEach_def)

lemma forEach_tombstone: "forEach (None # xs) fn s = forEach xs fn s"
  by (simp add: forEach_def)

lemma eject_in_range:
  "i < length hs \<Longrightarrow> eject hs (int i) = take i hs @ None # drop (Suc i) hs"
proof (cases "hs ! i")
  case None
  assume "i < length hs"
  with None show ?thesis
    using id_take_nth_drop[of i hs] by (simp add: eject_def)
next
  case (Some e)
  assume "i < length hs"
  with Some show ?thesis
    by (simp add: eject_def upd_conv_take_nth_drop)
qed

lemma eject_out_of_range: "ident < 0 \<or> int (length hs) \<le> ident \<Longrightarrow> eject hs ident = hs"
  by (auto simp: eject_def)

lemma eject_idem: "eject (eject hs ident) ident = eject hs ident"
  by (auto simp: eject_def)

lemma eject_length: "length (eject hs ident) = length hs"
  by (simp add: eject_def)

lemma eject_other: "int j \<noteq> ident \<Longrightarrow> eject hs ident ! j = hs ! j"
  by (auto simp: eject_def)

lemma eject_slot: "i < length hs \<Longrightarrow> eject hs (int i) ! i = None"
  by (auto simp: eject_def)

lemma use_index: "snd (use hs f r opts) = length hs"
  by (simp add: use_def Let_def)

lemma use_handlers: "\<exists>e. fst (use hs f r opts) = hs @ [Some e]"
  by (simp add: use_def Let_def)

lemma eject_after_use:
  "eject (fst (use hs f r opts)) (int (snd (use hs f r opts))) = hs @ [None]"
  by (simp add: use_def Let_def eject_def)

text \<open>
  Claim C4. For the index \<open>use\<close> returns, ejecting it leaves an iteration that visits exactly
  what it visited before the entry was added; for any issued index \<open>i\<close>, after \<open>eject(i)\<close>
  the slot is \<open>null\<close> and \<open>forEach\<close> visits the other slots only, in their order; a second
  \<open>eject(i)\<close> changes nothing; an index outside the array changes nothing; the array keeps
  its length and every other slot its content and index; and a later \<open>use\<close> appends a fresh
  index instead of reusing the tombstone.
\<close>

theorem eject_tombstones:
  "forEach (eject (fst (use hs f r opts)) (int (snd (use hs f r opts)))) fn s = forEach hs fn s
   \<and> (i < length hs \<longrightarrow>
        eject hs (int i) ! i = None
        \<and> forEach (eject hs (int i)) fn s = forEach (take i hs @ drop (Suc i) hs) fn s)
   \<and> eject (eject hs ident) ident = eject hs ident
   \<and> (ident < 0 \<or> int (length hs) \<le> ident \<longrightarrow> eject hs ident = hs)
   \<and> length (eject hs ident) = length hs
   \<and> (int j \<noteq> ident \<longrightarrow> eject hs ident ! j = hs ! j)
   \<and> snd (use (eject hs ident) f r opts) = length hs"
proof (intro conjI impI)
  show "forEach (eject (fst (use hs f r opts)) (int (snd (use hs f r opts)))) fn s = forEach hs fn s"
    by (simp add: eject_after_use forEach_append forEach_tombstone) (simp add: forEach_def)
  show "eject hs (int i) ! i = None" if "i < length hs"
    using that by (rule eject_slot)
  show "forEach (eject hs (int i)) fn s = forEach (take i hs @ drop (Suc i) hs) fn s"
    if "i < length hs"
    by (simp add: eject_in_range[OF that] forEach_append forEach_tombstone)
  show "eject (eject hs ident) ident = eject hs ident"
    by (rule eject_idem)
  show "eject hs ident = hs" if "ident < 0 \<or> int (length hs) \<le> ident"
    using that by (rule eject_out_of_range)
  show "length (eject hs ident) = length hs"
    by (rule eject_length)
  show "eject hs ident ! j = hs ! j" if "int j \<noteq> ident"
    using that by (rule eject_other)
  show "snd (use (eject hs ident) f r opts) = length hs"
    by (simp add: use_index eject_length)
qed

theorem eject_tombstones_witness:
  "(0::nat) < length [Some \<lparr>fulfilled = (1::nat), rejected = 2, synchronous = False,
                              runWhen = (None :: (nat \<Rightarrow> jsval) option)\<rparr>,
                       Some \<lparr>fulfilled = 3, rejected = 4, synchronous = False, runWhen = None\<rparr>]
   \<and> forEach (eject [Some \<lparr>fulfilled = (1::nat), rejected = 2, synchronous = False,
                              runWhen = (None :: (nat \<Rightarrow> jsval) option)\<rparr>,
                       Some \<lparr>fulfilled = 3, rejected = 4, synchronous = False, runWhen = None\<rparr>]
               (int 0)) visit_fulfilled [] = [3]
   \<and> int (length [Some \<lparr>fulfilled = (1::nat), rejected = 2, synchronous = False,
                           runWhen = (None :: (nat \<Rightarrow> jsval) option)\<rparr>,
                    Some \<lparr>fulfilled = 3, rejected = 4, synchronous = False, runWhen = None\<rparr>]) \<le> 7
   \<and> eject [Some \<lparr>fulfilled = (1::nat), rejected = 2, synchronous = False,
                     runWhen = (None :: (nat \<Rightarrow> jsval) option)\<rparr>,
              Some \<lparr>fulfilled = 3, rejected = 4, synchronous = False, runWhen = None\<rparr>] 7
       = [Some \<lparr>fulfilled = 1, rejected = 2, synchronous = False, runWhen = None\<rparr>,
          Some \<lparr>fulfilled = 3, rejected = 4, synchronous = False, runWhen = None\<rparr>]
   \<and> (1::int) \<noteq> 0
   \<and> eject [Some \<lparr>fulfilled = (1::nat), rejected = 2, synchronous = False,
                     runWhen = (None :: (nat \<Rightarrow> jsval) option)\<rparr>,
              Some \<lparr>fulfilled = 3, rejected = 4, synchronous = False, runWhen = None\<rparr>] 0 ! 1
       = Some \<lparr>fulfilled = 3, rejected = 4, synchronous = False, runWhen = None\<rparr>"
  using eject_tombstones[of "[Some \<lparr>fulfilled = (1::nat), rejected = 2, synchronous = False,
                              runWhen = (None :: (nat \<Rightarrow> jsval) option)\<rparr>,
                       Some \<lparr>fulfilled = 3, rejected = 4, synchronous = False, runWhen = None\<rparr>]"
          5 6 None visit_fulfilled "[]" 0 7 1]
    eject_tombstones[of "[Some \<lparr>fulfilled = (1::nat), rejected = 2, synchronous = False,
                              runWhen = (None :: (nat \<Rightarrow> jsval) option)\<rparr>,
                       Some \<lparr>fulfilled = 3, rejected = 4, synchronous = False, runWhen = None\<rparr>]"
          5 6 None visit_fulfilled "[]" 0 0 1]
  by (simp add: forEach_def visit_fulfilled_def)

subsection \<open>Adapter resolution\<close>

lemma getAdapter_loop_passed_over:
  "list_all (passed_over known) pre \<Longrightarrow>
     \<exists>rr'. getAdapter_loop known i (pre @ rest) rr = getAdapter_loop known (i + length pre) rest rr'"
proof (induction pre arbitrary: i rr)
  case Nil
  then show ?case by auto
next
  case (Cons c pre)
  from Cons.prems have p: "passed_over known c" and ps: "list_all (passed_over known) pre"
    by simp_all
  from p obtain rr1 where
    "getAdapter_loop known i ((c # pre) @ rest) rr = getAdapter_loop known (Suc i) (pre @ rest) rr1"
    by (auto simp: passed_over_def split: candidate.splits)
  moreover from Cons.IH[OF ps, of "Suc i" rr1] obtain rr' where
    "getAdapter_loop known (Suc i) (pre @ rest) rr1
       = getAdapter_loop known (Suc i + length pre) rest rr'" ..
  ultimately show ?case by auto
qed

lemma getAdapter_real:
  assumes "list_all (passed_over known) pre"
  shows "getAdapter known (Many (pre @ Handle (Fn f) # post)) = Inr (Adapter f)"
proof -
  from getAdapter_loop_passed_over[OF assms, of 0 "Handle (Fn f) # post" "[]"]
  obtain rr' where "getAdapter_loop known 0 (pre @ Handle (Fn f) # post) []
      = getAdapter_loop known (0 + length pre) (Handle (Fn f) # post) rr'" ..
  then show ?thesis by (simp add: getAdapter_def)
qed

lemma getAdapter_unknown:
  assumes "list_all (passed_over known) pre" and "map_of known (toLowerCase n) = None"
    and "toLowerCase n \<noteq> ''constructor''" and "toLowerCase n \<noteq> ''__proto__''"
  shows "getAdapter known (Many (pre @ Name n # post))
           = Inl (AxiosError (''Unknown adapter '' @ [CHR 0x27] @ n @ [CHR 0x27]) None)"
proof -
  from getAdapter_loop_passed_over[OF assms(1), of 0 "Name n # post" "[]"]
  obtain rr' where "getAdapter_loop known 0 (pre @ Name n # post) []
      = getAdapter_loop known (0 + length pre) (Name n # post) rr'" ..
  then show ?thesis using assms(2-4) by (simp add: getAdapter_def inherited_def)
qed

lemma getAdapter_inherited:
  assumes "list_all (passed_over known) pre" and "map_of known (toLowerCase n) = None"
    and "inherited (toLowerCase n) = Some m"
  shows "getAdapter known (Many (pre @ Name n # post)) = Inr m"
proof -
  from getAdapter_loop_passed_over[OF assms(1), of 0 "Name n # post" "[]"]
  obtain rr' where "getAdapter_loop known 0 (pre @ Name n # post) []
      = getAdapter_loop known (0 + length pre) (Name n # post) rr'" ..
  then show ?thesis using assms(2,3) by (simp add: getAdapter_def)
qed

text \<open>
  The walk of \<open>getAdapter\<close>. When every candidate before it is passed over (a \<open>null\<close> or
  \<open>false\<close> sentinel, or a name whose builtin is one), a real adapter is returned, so
  \<open>[null, false, realAdapter]\<close> resolves to \<open>realAdapter\<close>; sentinels alone end in the
  aggregate \<open>ERR_NOT_SUPPORT\<close> error that lists each recorded reason; and a name that
  is no builtin and, in lower case, neither \<open>constructor\<close> nor \<open>__proto__\<close> throws
  \<open>Unknown adapter '<name>'\<close> (an AxiosError without the code \<open>ERR_NOT_SUPPORT\<close>) as
  soon as the walk reaches it, whatever candidates follow.
\<close>

lemma getAdapter_walk:
  assumes "list_all (passed_over known) pre"
  shows "getAdapter known (Many (pre @ Handle (Fn f) # post)) = Inr (Adapter f)
     \<and> getAdapter known (Many [Handle ANull, Handle AFalse, Handle (Fn f)]) = Inr (Adapter f)
     \<and> getAdapter known (Many [Handle ANull, Handle AFalse])
          = Inl (AxiosError (''There is no suitable adapter to dispatch the request since :''
                   @ [CHR 0x0A] @ ''- adapter #0 is not available in the build''
                   @ [CHR 0x0A] @ ''- adapter #1 is not supported by the environment'')
                 (Some ''ERR_NOT_SUPPORT''))
     \<and> (map_of known (toLowerCase n) = None
          \<and> toLowerCase n \<noteq> ''constructor'' \<and> toLowerCase n \<noteq> ''__proto__'' \<longrightarrow>
          getAdapter known (Many (pre @ Name n # post))
            = Inl (AxiosError (''Unknown adapter '' @ [CHR 0x27] @ n @ [CHR 0x27]) None))"
proof (intro conjI impI)
  show "getAdapter known (Many (pre @ Handle (Fn f) # post)) = Inr (Adapter f)"
    by (rule getAdapter_real[OF assms])
  show "getAdapter known (Many [Handle ANull, Handle AFalse, Handle (Fn f)]) = Inr (Adapter f)"
    using getAdapter_real[of known "[Handle ANull, Handle AFalse]" f "[]"]
    by (simp add: passed_over_def)
  show "getAdapter known (Many [Handle ANull, Handle AFalse])
          = Inl (AxiosError (''There is no suitable adapter to dispatch the request since :''
                   @ [CHR 0x0A] @ ''- adapter #0 is not available in the build''
                   @ [CHR 0x0A] @ ''- adapter #1 is not supported by the environment'')
                 (Some ''ERR_NOT_SUPPORT''))"
    by (simp add: getAdapter_def show_nat.simps digit_char_def renderReason_def)
  show "getAdapter known (Many (pre @ Name n # post))
            = Inl (AxiosError (''Unknown adapter '' @ [CHR 0x27] @ n @ [CHR 0x27]) None)"
    if "map_of known (toLowerCase n) = None
          \<and> toLowerCase n \<noteq> ''constructor'' \<and> toLowerCase n \<noteq> ''__proto__''"
    using getAdapter_unknown[OF assms] that by blast
qed

lemma getAdapter_walk_instance:
  "list_all (passed_over [(''http'', ANull), (''xhr'', Fn (1::nat))]) [Handle AFalse, Name ''HTTP'']
   \<and> getAdapter [(''http'', ANull), (''xhr'', Fn (1::nat))]
        (Many [Handle AFalse, Name ''HTTP'', Handle (Fn 2), Name ''xhr'']) = Inr (Adapter 2)
   \<and> map_of [(''http'', ANull), (''xhr'', Fn (1::nat))] (toLowerCase ''bogus'') = None
   \<and> getAdapter [(''http'', ANull), (''xhr'', Fn (1::nat))]
        (Many [Handle AFalse, Name ''HTTP'', Name ''bogus'', Name ''xhr''])
        = Inl (AxiosError (''Unknown adapter '' @ [CHR 0x27] @ ''bogus'' @ [CHR 0x27]) None)"
proof -
  have l: "toLowerCase ''HTTP'' = ''http''" "toLowerCase ''bogus'' = ''bogus''"
    by (simp_all add: toLowerCase_def toLowerChar_def)
  have p: "list_all (passed_over [(''http'', ANull), (''xhr'', Fn (1::nat))])
             [Handle AFalse, Name ''HTTP'']"
    by (simp add: passed_over_def l)
  have u: "map_of [(''http'', ANull), (''xhr'', Fn (1::nat))] (toLowerCase ''bogus'') = None"
    by (simp add: l)
  show ?thesis
    using getAdapter_walk[OF p, of 2 "[Name ''xhr'']" "''bogus''"] p u
    by (simp add: l)
qed

text \<open>
  Claim C5. The claim holds for sentinels, real adapters and every name that, in lower
  case, is neither \<open>constructor\<close> nor \<open>__proto__\<close> (lemma \<open>getAdapter_walk\<close>). On those
  two names, which name no builtin, the code does not throw \<open>Unknown adapter\<close>: with the
  builtins \<open>http\<close> (absent) and \<open>xhr\<close>, \<open>getAdapter('constructor')\<close> returns the function
  \<open>Object\<close>, \<open>getAdapter('__proto__')\<close> returns \<open>Object.prototype\<close>, in any casing and also
  after sentinels and before further candidates; \<open>dispatchRequest\<close> then fails with a
  TypeError of the engine instead of the AxiosError.
\<close>

theorem getAdapter_inherited_name:
  "getAdapter [(''http'', ANull), (''xhr'', Fn (1::nat))] (One (Name ''constructor''))
      = Inr Object_constructor
   \<and> getAdapter [(''http'', ANull), (''xhr'', Fn (1::nat))] (One (Name ''__proto__''))
      = Inr Object_prototype
   \<and> getAdapter [(''http'', ANull), (''xhr'', Fn (1::nat))]
        (Many [Handle AFalse, Name ''Constructor'', Name ''xhr'']) = Inr Object_constructor
   \<and> snd (dispatchRequest echo_env (post_config\<lparr> http_method := JStr ''get'', adapter := Some (One (Name ''constructor'')) \<rparr>))
      = Throws (TypeError ''adapter(...).then is not a function'')
   \<and> snd (dispatchRequest echo_env (post_config\<lparr> http_method := JStr ''get'', adapter := Some (One (Name ''__proto__'')) \<rparr>))
      = Throws (TypeError ''adapter is not a function'')"
proof -
  have l: "toLowerCase ''constructor'' = ''constructor''"
    "toLowerCase ''Constructor'' = ''constructor''" "toLowerCase ''__proto__'' = ''__proto__''"
    by (simp_all add: toLowerCase_def toLowerChar_def)
  have g: "getAdapter [(''http'', ANull), (''xhr'', Fn (1::nat))] (One (Name ''constructor''))
      = Inr Object_constructor"
    "getAdapter [(''http'', ANull), (''xhr'', Fn (1::nat))] (One (Name ''__proto__''))
      = Inr Object_prototype"
    "getAdapter [(''http'', ANull), (''xhr'', Fn (1::nat))]
        (Many [Handle AFalse, Name ''Constructor'', Name ''xhr'']) = Inr Object_constructor"
    by (simp_all add: getAdapter_def l inherited_def)
  have e: "getAdapter [(''http'', AFalse), (''xhr'', Fn (0::nat))] (One (Name ''constructor''))
      = Inr Object_constructor"
    "getAdapter [(''http'', AFalse), (''xhr'', Fn (0::nat))] (One (Name ''__proto__''))
      = Inr Object_prototype"
    by (simp_all add: getAdapter_def l inherited_def)
  have d: "snd (dispatchRequest echo_env (post_config\<lparr> http_method := JStr ''get'', adapter := Some (One (Name ''constructor'')) \<rparr>))
      = Throws (TypeError ''adapter(...).then is not a function'')"
    "snd (dispatchRequest echo_env (post_config\<lparr> http_method := JStr ''get'', adapter := Some (One (Name ''__proto__'')) \<rparr>))
      = Throws (TypeError ''adapter is not a function'')"
    by (simp_all add: dispatchRequest_def post_config_def throwIfCancellationRequested_def
        from_headers_def adapter_or_default_def echo_env_def Let_def e)
  from g d show ?thesis by blast
qed

subsection \<open>dispatchRequest\<close>

lemma throwIfCancellationRequested_token:
  "cancelToken config = Some (Token_requested m) \<Longrightarrow>
     throwIfCancellationRequested config = Some (CanceledError m)"
  by (simp add: throwIfCancellationRequested_def throwIfRequested_def)

lemma throwIfCancellationRequested_signal:
  "signal config = Some True \<Longrightarrow> \<exists>m. throwIfCancellationRequested config = Some (CanceledError m)"
  by (auto simp: throwIfCancellationRequested_def throwIfRequested_def
      split: option.splits cancel_token.splits)

lemma throwIfCancellationRequested_kind:
  "throwIfCancellationRequested config = Some e \<Longrightarrow> \<exists>m. e = CanceledError m"
  by (auto simp: throwIfCancellationRequested_def throwIfRequested_def
      split: option.splits cancel_token.splits if_splits)

lemma dispatchRequest_cancelled:
  "throwIfCancellationRequested config = Some e \<Longrightarrow> dispatchRequest E config = (config, Throws e)"
  by (simp add: dispatchRequest_def)

text \<open>
  Claim C7. When the config's cancel token has been signaled, or its abort signal is
  aborted, \<open>dispatchRequest\<close> throws a CanceledError (the token's reason, or a fresh one
  for the signal) and leaves the config exactly as it was: no header normalization, no
  request transform, no Content-Type default. The outcome is the same whatever the
  transforms, the adapter table and the adapters are, so none of them is consulted.
\<close>

theorem dispatch_cancelled_first:
  "(cancelToken config = Some (Token_requested m) \<longrightarrow>
      dispatchRequest E config = (config, Throws (CanceledError m)))
   \<and> (cancelToken config = Some (Token_requested m) \<or> signal config = Some True \<longrightarrow>
        (\<exists>m'. dispatchRequest E config = (config, Throws (CanceledError m')))
        \<and> dispatchRequest E config = dispatchRequest E' config)"
proof (intro conjI impI)
  show "dispatchRequest E config = (config, Throws (CanceledError m))"
    if "cancelToken config = Some (Token_requested m)"
    by (rule dispatchRequest_cancelled[OF throwIfCancellationRequested_token[OF that]])
  assume "cancelToken config = Some (Token_requested m) \<or> signal config = Some True"
  then obtain m' where c: "throwIfCancellationRequested config = Some (CanceledError m')"
    using throwIfCancellationRequested_token throwIfCancellationRequested_signal by blast
  show "\<exists>m'. dispatchRequest E config = (config, Throws (CanceledError m'))"
    using dispatchRequest_cancelled[OF c] by blast
  show "dispatchRequest E config = dispatchRequest E' config"
    by (simp add: dispatchRequest_cancelled[OF c])
qed


theorem dispatch_cancelled_first_witness:
  "cancelToken (post_config\<lparr> cancelToken := Some (Token_requested (Some ''stop'')) \<rparr>)
      = Some (Token_requested (Some ''stop''))
   \<and> dispatchRequest echo_env (post_config\<lparr> cancelToken := Some (Token_requested (Some ''stop'')) \<rparr>)
      = (post_config\<lparr> cancelToken := Some (Token_requested (Some ''stop'')) \<rparr>,
         Throws (CanceledError (Some ''stop'')))
   \<and> signal (post_config\<lparr> signal := Some True \<rparr>) = Some True
   \<and> dispatchRequest echo_env (post_config\<lparr> signal := Some True \<rparr>)
      = (post_config\<lparr> signal := Some True \<rparr>, Throws (CanceledError None))"
proof -
  have t: "throwIfCancellationRequested (post_config\<lparr> signal := Some True \<rparr>)
             = Some (CanceledError None)"
    by (simp add: throwIfCancellationRequested_def post_config_def)
  show ?thesis
    using dispatch_cancelled_first[of "post_config\<lparr> cancelToken := Some (Token_requested (Some ''stop'')) \<rparr>"
        "Some ''stop''" echo_env echo_env]
      dispatch_cancelled_first[of "post_config\<lparr> signal := Some True \<rparr>" None echo_env echo_env]
    by (auto simp: dispatchRequest_def t)
qed

lemma setContentType_default:
  "setContentType ph h (JStr ''application/x-www-form-urlencoded'') (JBool False) =
     (if has h (JStr ''Content-Type'') None then h
      else assign h (case findKey h ''Content-Type'' of Some k \<Rightarrow> k | None \<Rightarrow> ''Content-Type'')
             (JStr ''application/x-www-form-urlencoded''), None)"
proof -
  have t: "trim ''Content-Type'' = ''Content-Type''"
    by (simp add: trim_def isSpace_def)
  show ?thesis
    by (simp add: setContentType_def set_header_written[OF valid_Content_Type] t stored_names
        split: option.splits)
qed

lemma dispatchRequest_config:
  assumes "throwIfCancellationRequested config = None"
    and "from_headers (parseHeaders E) (headers config) = Inr h"
    and "transformRequest E (config\<lparr> headers := Instance h \<rparr>) h = (Inr d, h')"
  shows "fst (dispatchRequest E config) =
     config\<lparr> headers := Instance
        (if http_method config \<in> set [JStr ''post'', JStr ''put'', JStr ''patch'']
            \<and> \<not> has h' (JStr ''Content-Type'') None
         then assign h' (case findKey h' ''Content-Type'' of Some k \<Rightarrow> k | None \<Rightarrow> ''Content-Type'')
                (JStr ''application/x-www-form-urlencoded'')
         else h'),
       data := d \<rparr>"
  using assms
  by (simp add: dispatchRequest_def setContentType_default Let_def
      split: sum.splits adapter_fn.splits adapter_result.splits outcome.splits)

lemma get_Content_Type_assigned:
  "get (assign h (case findKey h ''Content-Type'' of Some k \<Rightarrow> k | None \<Rightarrow> ''Content-Type'') v)
     (JStr ''Content-Type'') None = Inr v"
proof -
  have t: "trim ''Content-Type'' \<noteq> []" "trim ''Content-Type'' = ''Content-Type''"
    by (simp_all add: trim_def isSpace_def)
  show ?thesis
    by (cases "findKey h ''Content-Type''")
      (simp_all add: get_name[OF t(1)] t(2) findKey_assign_new findKey_assign_old read_prop_assign)
qed

text \<open>
  Claim C9. When the call gets as far as the Content-Type step (no cancellation, the
  headers normalize to a container, the request transform returns and leaves the
  container \<open>h'\<close>): for the methods \<open>post\<close>, \<open>put\<close> and \<open>patch\<close> the header Content-Type
  becomes \<open>application/x-www-form-urlencoded\<close> only if \<open>h'\<close> has no entry for it (no key,
  or \<open>undefined\<close> stored); an explicit value and a stored \<open>false\<close> leave the container
  unchanged; and for any other method the container is unchanged.
\<close>

theorem content_type_default:
  assumes "throwIfCancellationRequested config = None"
    and "from_headers (parseHeaders E) (headers config) = Inr h"
    and "transformRequest E (config\<lparr> headers := Instance h \<rparr>) h = (Inr d, h')"
  shows "\<exists>hs. headers (fst (dispatchRequest E config)) = Instance hs
     \<and> get hs (JStr ''Content-Type'') None =
         (if http_method config \<in> set [JStr ''post'', JStr ''put'', JStr ''patch'']
             \<and> \<not> has h' (JStr ''Content-Type'') None
          then Inr (JStr ''application/x-www-form-urlencoded'')
          else get h' (JStr ''Content-Type'') None)
     \<and> (has h' (JStr ''Content-Type'') None
           \<or> http_method config \<notin> set [JStr ''post'', JStr ''put'', JStr ''patch''] \<longrightarrow> hs = h')"
  by (simp add: dispatchRequest_config[OF assms] get_Content_Type_assigned)

lemma post_config_steps:
  "throwIfCancellationRequested post_config = None"
  "from_headers (parseHeaders echo_env) (headers post_config) = Inr [(''content-type'', JBool False)]"
  "transformRequest echo_env (post_config\<lparr> headers := Instance [(''content-type'', JBool False)] \<rparr>)
      [(''content-type'', JBool False)] = (Inr (JStr ''a=1''), [(''content-type'', JBool False)])"
  by (simp_all add: post_config_def echo_env_def throwIfCancellationRequested_def from_headers_def)

lemma plain_post_steps:
  "throwIfCancellationRequested (post_config\<lparr> headers := Instance [] \<rparr>) = None"
  "from_headers (parseHeaders echo_env) (headers (post_config\<lparr> headers := Instance [] \<rparr>)) = Inr []"
  "transformRequest echo_env (post_config\<lparr> headers := Instance [] \<rparr>\<lparr> headers := Instance [] \<rparr>) []
     = (Inr (JStr ''a=1''), [])"
  by (simp_all add: post_config_def echo_env_def throwIfCancellationRequested_def from_headers_def)

theorem content_type_default_witness:
  "throwIfCancellationRequested post_config = None
   \<and> from_headers (parseHeaders echo_env) (headers post_config) = Inr [(''content-type'', JBool False)]
   \<and> transformRequest echo_env (post_config\<lparr> headers := Instance [(''content-type'', JBool False)] \<rparr>)
        [(''content-type'', JBool False)] = (Inr (JStr ''a=1''), [(''content-type'', JBool False)])
   \<and> has [(''content-type'', JBool False)] (JStr ''Content-Type'') None
   \<and> headers (fst (dispatchRequest echo_env post_config)) = Instance [(''content-type'', JBool False)]
   \<and> http_method post_config = JStr ''post''
   \<and> \<not> has [] (JStr ''Content-Type'') None
   \<and> (\<exists>hs. headers (fst (dispatchRequest echo_env (post_config\<lparr> headers := Instance [] \<rparr>)))
               = Instance hs
             \<and> get hs (JStr ''Content-Type'') None = Inr (JStr ''application/x-www-form-urlencoded''))"
proof -
  have h: "has [(''content-type'', JBool False)] (JStr ''Content-Type'') None"
    "\<not> has [] (JStr ''Content-Type'') None"
    by (simp_all add: has_def normalizeHeader_def findKey_def keys_def read_prop_def
        trim_def isSpace_def toLowerCase_def toLowerChar_def)
  have m: "http_method post_config = JStr ''post''"
    "http_method (post_config\<lparr> headers := Instance [] \<rparr>) = JStr ''post''"
    by (simp_all add: post_config_def)
  show ?thesis
    using content_type_default[OF post_config_steps] content_type_default[OF plain_post_steps]
      post_config_steps h m
    by auto
qed

lemma dispatchRequest_rejected:
  assumes "throwIfCancellationRequested config = None"
    and "from_headers (parseHeaders E) (headers config) = Inr h"
    and "transformRequest E (config\<lparr> headers := Instance h \<rparr>) h = (Inr d, h')"
    and "getAdapter (knownAdapters E) (adapter_or_default E (fst (dispatchRequest E config)))
           = Inr (Adapter a)"
    and "invoke E a (fst (dispatchRequest E config)) = Adapter_settles (Rejected r) config'"
  shows "snd (dispatchRequest E config) = Promise (onAdapterRejection E config' r)"
proof (cases "http_method config \<in> set [JStr ''post'', JStr ''put'', JStr ''patch'']
                \<and> \<not> has h' (JStr ''Content-Type'') None")
  case True
  then show ?thesis
    using assms(4,5) unfolding dispatchRequest_config[OF assms(1-3)]
    using assms(1-3)
    by (auto simp: dispatchRequest_def setContentType_default Let_def)
next
  case False
  then show ?thesis
    using assms(4,5) unfolding dispatchRequest_config[OF assms(1-3)]
    using assms(1-3)
    by (auto simp: dispatchRequest_def setContentType_default Let_def)
qed


text \<open>
  Claim C8. When the synchronous part of \<open>dispatchRequest\<close> has reached the adapter and the
  adapter's deferred result rejects, the promise \<open>dispatchRequest\<close> returns settles as
  the rejection continuation decides, on the config as it stands then: a cancellation is
  passed on as it is, whatever the cancellation state of the config and the response
  transform are; for any other reason the cancellation check runs first and its
  CanceledError replaces the reason; otherwise a reason carrying a response is passed on
  with the response's data transformed and its headers normalized into a container, and
  a reason without a response is passed on as it is.
\<close>

theorem adapter_rejection:
  "(throwIfCancellationRequested config0 = None
      \<and> from_headers (parseHeaders E) (headers config0) = Inr h0
      \<and> transformRequest E (config0\<lparr> headers := Instance h0 \<rparr>) h0 = (Inr d0, h1)
      \<and> getAdapter (knownAdapters E) (adapter_or_default E (fst (dispatchRequest E config0)))
          = Inr (Adapter a)
      \<and> invoke E a (fst (dispatchRequest E config0)) = Adapter_settles (Rejected r) config \<longrightarrow>
      snd (dispatchRequest E config0) = Promise (onAdapterRejection E config r))
   \<and> (isCancel r \<longrightarrow> onAdapterRejection E config r = Rejected r)
   \<and> (\<not> isCancel r \<and> throwIfCancellationRequested config = Some e \<longrightarrow>
         onAdapterRejection E config r = Rejected (thrown e) \<and> isCancel (thrown e))
   \<and> (\<not> isCancel r \<and> throwIfCancellationRequested config = None
         \<and> reason_response r = Some resp
         \<and> transformResponse E config resp = Inr d
         \<and> from_headers (parseHeaders E) (resp_headers resp) = Inr h \<longrightarrow>
         onAdapterRejection E config r =
           Rejected (r\<lparr> reason_response :=
             Some (resp\<lparr> resp_data := d, resp_headers := Instance h \<rparr>) \<rparr>))
   \<and> (\<not> isCancel r \<and> throwIfCancellationRequested config = None
         \<and> reason_response r = None \<longrightarrow>
         onAdapterRejection E config r = Rejected r)"
proof (intro conjI impI)
  assume "throwIfCancellationRequested config0 = None
      \<and> from_headers (parseHeaders E) (headers config0) = Inr h0
      \<and> transformRequest E (config0\<lparr> headers := Instance h0 \<rparr>) h0 = (Inr d0, h1)
      \<and> getAdapter (knownAdapters E) (adapter_or_default E (fst (dispatchRequest E config0)))
          = Inr (Adapter a)
      \<and> invoke E a (fst (dispatchRequest E config0)) = Adapter_settles (Rejected r) config"
  then show "snd (dispatchRequest E config0) = Promise (onAdapterRejection E config r)"
    using dispatchRequest_rejected[of config0 E h0 d0 h1 a r config] by blast
next
  show "onAdapterRejection E config r = Rejected r" if "isCancel r"
    using that by (simp add: onAdapterRejection_def)
next
  assume a: "\<not> isCancel r \<and> throwIfCancellationRequested config = Some e"
  then show "onAdapterRejection E config r = Rejected (thrown e)"
    by (simp add: onAdapterRejection_def)
  from a obtain m where "e = CanceledError m"
    using throwIfCancellationRequested_kind by blast
  then show "isCancel (thrown e)"
    by (simp add: isCancel_def thrown_def)
next
  assume "\<not> isCancel r \<and> throwIfCancellationRequested config = None
         \<and> reason_response r = Some resp
         \<and> transformResponse E config resp = Inr d
         \<and> from_headers (parseHeaders E) (resp_headers resp) = Inr h"
  then show "onAdapterRejection E config r =
           Rejected (r\<lparr> reason_response :=
             Some (resp\<lparr> resp_data := d, resp_headers := Instance h \<rparr>) \<rparr>)"
    by (simp add: onAdapterRejection_def)
next
  assume "\<not> isCancel r \<and> throwIfCancellationRequested config = None \<and> reason_response r = None"
  then show "onAdapterRejection E config r = Rejected r"
    by (simp add: onAdapterRejection_def)
qed


theorem adapter_rejection_witness:
  "\<not> isCancel \<lparr> reason_error = AxiosError ''Request failed with status code 500'' (Some ''ERR_BAD_RESPONSE''),
                  reason_response = Some \<lparr> resp_data = JStr ''fail'',
                    resp_headers = Raw (JObj [(''X'', JStr ''1'')]), resp_status = 500 \<rparr> \<rparr>
   \<and> throwIfCancellationRequested post_config = None
   \<and> onAdapterRejection echo_env post_config
        \<lparr> reason_error = AxiosError ''Request failed with status code 500'' (Some ''ERR_BAD_RESPONSE''),
          reason_response = Some \<lparr> resp_data = JStr ''fail'',
            resp_headers = Raw (JObj [(''X'', JStr ''1'')]), resp_status = 500 \<rparr> \<rparr>
      = Rejected
        \<lparr> reason_error = AxiosError ''Request failed with status code 500'' (Some ''ERR_BAD_RESPONSE''),
          reason_response = Some \<lparr> resp_data = JArr [JStr ''fail''],
            resp_headers = Instance [(''X'', JStr ''1'')], resp_status = 500 \<rparr> \<rparr>
   \<and> isCancel (thrown (CanceledError None))
   \<and> onAdapterRejection echo_env (post_config\<lparr> signal := Some True \<rparr>) (thrown (CanceledError None))
      = Rejected (thrown (CanceledError None))
   \<and> throwIfCancellationRequested (post_config\<lparr> signal := Some True \<rparr>) = Some (CanceledError None)
   \<and> onAdapterRejection echo_env (post_config\<lparr> signal := Some True \<rparr>)
        \<lparr> reason_error = Error ''Network Error'', reason_response = None \<rparr>
      = Rejected (thrown (CanceledError None))
   \<and> onAdapterRejection echo_env post_config
        \<lparr> reason_error = Error ''Network Error'', reason_response = None \<rparr>
      = Rejected \<lparr> reason_error = Error ''Network Error'', reason_response = None \<rparr>
   \<and> throwIfCancellationRequested post_config = None
   \<and> invoke late_cancel_env 0 post_config
       = Adapter_settles (Rejected \<lparr> reason_error = Error ''Network Error'', reason_response = None \<rparr>)
           (post_config\<lparr> signal := Some True \<rparr>)
   \<and> snd (dispatchRequest late_cancel_env post_config)
       = Promise (Rejected (thrown (CanceledError None)))"
proof -
  let ?resp = "\<lparr> resp_data = JStr ''fail'',
                    resp_headers = Raw (JObj [(''X'', JStr ''1'')]), resp_status = 500 \<rparr>"
  let ?r = "\<lparr> reason_error = AxiosError ''Request failed with status code 500'' (Some ''ERR_BAD_RESPONSE''),
                  reason_response = Some ?resp \<rparr>"
  let ?n = "\<lparr> reason_error = Error ''Network Error'', reason_response = None \<rparr>"
  have c: "\<not> isCancel ?r" "\<not> isCancel ?n" "isCancel (thrown (CanceledError None))"
    by (simp_all add: isCancel_def thrown_def)
  have t: "throwIfCancellationRequested post_config = None"
    "throwIfCancellationRequested (post_config\<lparr> signal := Some True \<rparr>) = Some (CanceledError None)"
    by (simp_all add: throwIfCancellationRequested_def post_config_def)
  have d: "transformResponse echo_env post_config ?resp = Inr (JArr [JStr ''fail''])"
    by (simp add: echo_env_def)
  have x: "trim ''X'' = ''X''" "isValidHeaderName ''X''"
    by (simp_all add: isValidHeaderName_def trim_def isSpace_def headerNameChars_def)
  have f: "from_headers (parseHeaders echo_env) (resp_headers ?resp) = Inr [(''X'', JStr ''1'')]"
    by (simp add: echo_env_def from_headers_def new_AxiosHeaders_def set_header_def
        setHeader_name x findKey_def keys_def write_prop_def prototype_members_def)
  have first:
    "\<not> isCancel \<lparr> reason_error = AxiosError ''Request failed with status code 500'' (Some ''ERR_BAD_RESPONSE''),
                    reason_response = Some \<lparr> resp_data = JStr ''fail'',
                      resp_headers = Raw (JObj [(''X'', JStr ''1'')]), resp_status = 500 \<rparr> \<rparr>
     \<and> throwIfCancellationRequested post_config = None
     \<and> onAdapterRejection echo_env post_config
          \<lparr> reason_error = AxiosError ''Request failed with status code 500'' (Some ''ERR_BAD_RESPONSE''),
            reason_response = Some \<lparr> resp_data = JStr ''fail'',
              resp_headers = Raw (JObj [(''X'', JStr ''1'')]), resp_status = 500 \<rparr> \<rparr>
        = Rejected
          \<lparr> reason_error = AxiosError ''Request failed with status code 500'' (Some ''ERR_BAD_RESPONSE''),
            reason_response = Some \<lparr> resp_data = JArr [JStr ''fail''],
              resp_headers = Instance [(''X'', JStr ''1'')], resp_status = 500 \<rparr> \<rparr>
     \<and> isCancel (thrown (CanceledError None))
     \<and> onAdapterRejection echo_env (post_config\<lparr> signal := Some True \<rparr>) (thrown (CanceledError None))
        = Rejected (thrown (CanceledError None))
     \<and> throwIfCancellationRequested (post_config\<lparr> signal := Some True \<rparr>) = Some (CanceledError None)
     \<and> onAdapterRejection echo_env (post_config\<lparr> signal := Some True \<rparr>)
          \<lparr> reason_error = Error ''Network Error'', reason_response = None \<rparr>
        = Rejected (thrown (CanceledError None))
     \<and> onAdapterRejection echo_env post_config
          \<lparr> reason_error = Error ''Network Error'', reason_response = None \<rparr>
        = Rejected \<lparr> reason_error = Error ''Network Error'', reason_response = None \<rparr>"
    using adapter_rejection[of post_config echo_env "[]" JNull "[]" 0 ?r post_config "CanceledError None" ?resp
        "JArr [JStr ''fail'']" "[(''X'', JStr ''1'')]"]
      adapter_rejection[of post_config echo_env "[]" JNull "[]" 0 "thrown (CanceledError None)" "post_config\<lparr> signal := Some True \<rparr>"
        "CanceledError None" ?resp "JArr [JStr ''fail'']" "[(''X'', JStr ''1'')]"]
      adapter_rejection[of post_config echo_env "[]" JNull "[]" 0 ?n "post_config\<lparr> signal := Some True \<rparr>"
        "CanceledError None" ?resp "JArr [JStr ''fail'']" "[(''X'', JStr ''1'')]"]
      adapter_rejection[of post_config echo_env "[]" JNull "[]" 0 ?n post_config
        "CanceledError None" ?resp "JArr [JStr ''fail'']" "[(''X'', JStr ''1'')]"]
      c t d f
    by simp

  let ?h = "[(''content-type'', JBool False)]"
  have n_c: "\<not> isCancel ?n"
    by (simp add: isCancel_def)
  have n_t: "throwIfCancellationRequested post_config = None"
    "throwIfCancellationRequested (post_config\<lparr> signal := Some True \<rparr>) = Some (CanceledError None)"
    by (simp_all add: throwIfCancellationRequested_def post_config_def)
  have n_l2: "from_headers (parseHeaders late_cancel_env) (headers post_config) = Inr ?h"
    by (simp add: post_config_def from_headers_def)
  have n_l3: "transformRequest late_cancel_env (post_config\<lparr> headers := Instance ?h \<rparr>) ?h
              = (Inr (JStr ''a=1''), ?h)"
    by (simp add: post_config_def late_cancel_env_def echo_env_def)
  have n_hc: "has ?h (JStr ''Content-Type'') None"
    by (simp add: has_def normalizeHeader_def findKey_def keys_def read_prop_def
        trim_def isSpace_def toLowerCase_def toLowerChar_def)
  have n_l4: "fst (dispatchRequest late_cancel_env post_config) = post_config"
    unfolding dispatchRequest_config[OF n_t(1) n_l2 n_l3] by (simp add: n_hc) (simp add: post_config_def)
  have n_lw: "toLowerCase ''xhr'' = ''xhr''"
    by (simp add: toLowerCase_def toLowerChar_def)
  have n_l5: "getAdapter (knownAdapters late_cancel_env)
              (adapter_or_default late_cancel_env (fst (dispatchRequest late_cancel_env post_config)))
            = Inr (Adapter 0)"
    unfolding n_l4
    by (simp add: adapter_or_default_def post_config_def late_cancel_env_def echo_env_def
        getAdapter_def n_lw)
  have n_l6: "invoke late_cancel_env 0 (fst (dispatchRequest late_cancel_env post_config))
       = Adapter_settles (Rejected ?n) (post_config\<lparr> signal := Some True \<rparr>)"
    unfolding n_l4 by (simp add: late_cancel_env_def)
  have n_link: "snd (dispatchRequest late_cancel_env post_config)
       = Promise (onAdapterRejection late_cancel_env (post_config\<lparr> signal := Some True \<rparr>) ?n)"
    using adapter_rejection[of post_config late_cancel_env ?h "JStr ''a=1''" ?h 0 ?n
        "post_config\<lparr> signal := Some True \<rparr>", THEN conjunct1] n_t(1) n_l2 n_l3 n_l5 n_l6
    by blast
  have n_late: "onAdapterRejection late_cancel_env (post_config\<lparr> signal := Some True \<rparr>) ?n
       = Rejected (thrown (CanceledError None))"
    using adapter_rejection[of post_config late_cancel_env ?h "JStr ''a=1''" ?h 0 ?n
        "post_config\<lparr> signal := Some True \<rparr>" "CanceledError None", THEN conjunct2] n_c n_t(2)
    by blast
  have second:
    "throwIfCancellationRequested post_config = None
     \<and> invoke late_cancel_env 0 post_config
         = Adapter_settles (Rejected \<lparr> reason_error = Error ''Network Error'', reason_response = None \<rparr>)
             (post_config\<lparr> signal := Some True \<rparr>)
     \<and> snd (dispatchRequest late_cancel_env post_config)
         = Promise (Rejected (thrown (CanceledError None)))"
    using n_t(1) n_l6 n_link n_late unfolding n_l4 by simp
  from first second show ?thesis by blast
qed

subsection \<open>Axios.request: the chain build\<close>

lemma forEach_live: "forEach hs fn s = fold fn (live hs) s"
  by (induction hs arbitrary: s) (auto simp: forEach_def live_def split: option.splits)

lemma handler_pairs_Cons: "handler_pairs (e # es) = fulfilled e # rejected e # handler_pairs es"
  by (simp add: handler_pairs_def)

lemma handler_pairs_append: "handler_pairs (xs @ ys) = handler_pairs xs @ handler_pairs ys"
  by (simp add: handler_pairs_def)

lemma fold_unshiftRequestInterceptors:
  "fold (unshiftRequestInterceptors config) es (b, ch) =
     (b \<and> list_all synchronous (filter (\<lambda>e. \<not> excluded config e) es),
      handler_pairs (rev (filter (\<lambda>e. \<not> excluded config e) es)) @ ch)"
  by (induction es arbitrary: b ch)
    (auto simp: unshiftRequestInterceptors_def excluded_def handler_pairs_def)

lemma fold_pushResponseInterceptors:
  "fold pushResponseInterceptors es ch = ch @ handler_pairs es"
  by (induction es arbitrary: ch) (auto simp: pushResponseInterceptors_def handler_pairs_def)

lemma build_request_chain:
  "forEach hs (unshiftRequestInterceptors config) (True, []) =
     (list_all synchronous (included config hs), handler_pairs (rev (included config hs)))"
  by (simp add: forEach_live fold_unshiftRequestInterceptors included_def)

lemma build_response_chain:
  "forEach hs pushResponseInterceptors [] = handler_pairs (live hs)"
  by (simp add: forEach_live fold_pushResponseInterceptors)

lemma request_unfolded:
  "request dispatch this config =
     (if \<not> list_all synchronous (included config (interceptors_request this))
      then Request_promise
             (then_chain (Fulfilled (Val config))
                (handler_pairs (rev (included config (interceptors_request this)))
                   @ [dispatch_handler dispatch, None]
                   @ handler_pairs (live (interceptors_response this))))
      else (case run_request_interceptors
                  (handler_pairs (rev (included config (interceptors_request this)))) (Val config) of
              Inl e \<Rightarrow> Request_throws e
            | Inr newConfig \<Rightarrow>
                (case dispatch newConfig of
                   Dispatch_throws error \<Rightarrow> Request_promise (Rejected error)
                 | Dispatch_promise promise \<Rightarrow>
                     Request_promise
                       (then_chain promise (handler_pairs (live (interceptors_response this)))))))"
  by (simp add: request_def build_request_chain build_response_chain resolve_def)


lemma then_chain_pairs_append:
  "then_chain p (handler_pairs es @ ys) = then_chain (then_chain p (handler_pairs es)) ys"
  by (induction es arbitrary: p) (simp_all add: handler_pairs_def)

lemma run_request_interceptors_fulfil_all:
  "fulfil_all (handler_pairs es) c = Some final \<Longrightarrow>
     run_request_interceptors (handler_pairs es) c = Inr final"
proof (induction es arbitrary: c)
  case Nil
  then show ?case by (simp add: handler_pairs_def)
next
  case (Cons e es)
  from Cons.prems obtain g c' where g: "fulfilled e = Some g" "g c = Return c'"
    and r: "fulfil_all (handler_pairs es) c' = Some final"
    by (auto simp: handler_pairs_Cons split: option.splits completion.splits val.splits)
  from Cons.IH[OF r] g show ?case
    by (simp add: handler_pairs_Cons call_handler_def)
qed

lemma then_chain_fulfil_all:
  "fulfil_all (handler_pairs es) c = Some final \<Longrightarrow>
     then_chain (Fulfilled c) (handler_pairs es) = Fulfilled final"
proof (induction es arbitrary: c)
  case Nil
  then show ?case by (simp add: handler_pairs_def)
next
  case (Cons e es)
  from Cons.prems obtain g c' where g: "fulfilled e = Some g" "g c = Return c'"
    and n: "resolve c' = Fulfilled c'"
    and r: "fulfil_all (handler_pairs es) c' = Some final"
    by (auto simp: handler_pairs_Cons resolve_def split: option.splits completion.splits val.splits)
  from Cons.IH[OF r] g n show ?case
    by (simp add: handler_pairs_Cons then_promise_def settle_def)
qed

lemma fulfil_all_run_fulfilled: "fulfil_all (handler_pairs es) c = run_fulfilled es c"
  by (induction es arbitrary: c)
    (simp_all add: handler_pairs_def run_fulfilled.simps
      split: option.splits completion.splits val.splits)

lemma then_chain_fold:
  "then_chain q (handler_pairs es) = fold (\<lambda>e q. then_promise q (fulfilled e) (rejected e)) es q"
  by (induction es arbitrary: q) (simp_all add: handler_pairs_def)

lemma run_request_interceptors_run_fulfilled:
  "run_fulfilled es c = Some c' \<Longrightarrow> run_request_interceptors (handler_pairs es) c = Inr c'"
  by (simp add: run_request_interceptors_fulfil_all fulfil_all_run_fulfilled)

lemma run_request_interceptors_throw:
  assumes "run_fulfilled pre c = Some c'"
    and "call_handler ''onFulfilled is not a function'' (fulfilled e) c' = Throw err"
  shows "run_request_interceptors (handler_pairs (pre @ e # post)) c =
     (case call_handler ''Cannot read properties of undefined (reading 'call')'' (rejected e) err of
        Return v \<Rightarrow> Inr c' | Throw x \<Rightarrow> Inl x)"
  using assms(1)
proof (induction pre arbitrary: c)
  case Nil
  with assms(2) show ?case
    by (simp add: handler_pairs_Cons run_fulfilled.simps)
next
  case (Cons a pre)
  from Cons.prems obtain g c1 where g: "fulfilled a = Some g" "g c = Return c1"
    and r: "run_fulfilled pre c1 = Some c'"
    by (auto simp: run_fulfilled.simps split: option.splits completion.splits val.splits)
  from Cons.IH[OF r] g show ?case
    by (simp add: handler_pairs_Cons call_handler_def)
qed

lemma request_in_order:
  assumes "run_fulfilled (rev (included config (interceptors_request this))) (Val config) = Some final"
    and "dispatch final = Dispatch_promise (Fulfilled r)"
    and "run_fulfilled (live (interceptors_response this)) r = Some r'"
  shows "request dispatch this config = Request_promise (Fulfilled r')"
proof -
  have a: "fulfil_all (handler_pairs (rev (included config (interceptors_request this)))) (Val config)
             = Some final"
    using assms(1) by (simp add: fulfil_all_run_fulfilled)
  have b: "then_chain (Fulfilled r) (handler_pairs (live (interceptors_response this))) = Fulfilled r'"
    using assms(3) by (simp add: then_chain_fulfil_all fulfil_all_run_fulfilled)
  have d: "then_promise (Fulfilled final) (dispatch_handler dispatch) None = Fulfilled r"
    using assms(2) by (simp add: then_promise_def dispatch_handler_def settle_def resolve_def)
  show ?thesis
    using assms(2)
    by (simp add: request_unfolded run_request_interceptors_fulfil_all[OF a]
        then_chain_fulfil_all[OF a] then_chain_pairs_append d b)
qed

text \<open>
  Claim C6. The chain build leaves the flag \<open>synchronousRequestInterceptors\<close> equal to the
  conjunction of the \<open>synchronous\<close> flags of the included request interceptors (the live
  entries that \<open>runWhen\<close> does not exclude for the config), the request chain equal to
  their handler pairs in reverse registration order, and the response chain equal to
  the handler pairs of the live response interceptors in registration order. \<open>request\<close>
  takes the promise chain as soon as one included interceptor is not synchronous.

  Both paths execute the chains in that order. The promise chain attaches the pairs one
  after the other, the first pair of the chain first. The loop of the synchronous path
  calls the fulfilled handlers from the first pair on, each on the value the one before
  returned; when one throws (or is missing) it calls the rejected handler of the same
  pair on the error, calls no handler of a later pair, and keeps the value it had. So on
  either path, when the fulfilled handlers of the included request interceptors, run in
  reverse registration order from the config, return \<open>final\<close>, \<open>dispatchRequest\<close> called
  with \<open>final\<close> returns a promise fulfilled with \<open>r\<close>, and the fulfilled handlers of the
  live response interceptors, run in registration order from \<open>r\<close>, return \<open>r'\<close>, then
  \<open>request\<close> returns a promise fulfilled with \<open>r'\<close>.
\<close>

theorem chain_build:
  "forEach (interceptors_request this) (unshiftRequestInterceptors config) (True, []) =
     (list_all synchronous (included config (interceptors_request this)),
      handler_pairs (rev (included config (interceptors_request this))))
   \<and> forEach (interceptors_response this) pushResponseInterceptors [] =
       handler_pairs (live (interceptors_response this))
   \<and> request dispatch this config =
     (if \<not> list_all synchronous (included config (interceptors_request this))
      then Request_promise
             (then_chain (Fulfilled (Val config))
                (handler_pairs (rev (included config (interceptors_request this)))
                   @ [dispatch_handler dispatch, None]
                   @ handler_pairs (live (interceptors_response this))))
      else (case run_request_interceptors
                  (handler_pairs (rev (included config (interceptors_request this)))) (Val config) of
              Inl e \<Rightarrow> Request_throws e
            | Inr newConfig \<Rightarrow>
                (case dispatch newConfig of
                   Dispatch_throws error \<Rightarrow> Request_promise (Rejected error)
                 | Dispatch_promise promise \<Rightarrow>
                     Request_promise
                       (then_chain promise (handler_pairs (live (interceptors_response this)))))))
   \<and> then_chain q (handler_pairs es) =
       fold (\<lambda>e q. then_promise q (fulfilled e) (rejected e)) es q
   \<and> (run_fulfilled fs c = Some c' \<longrightarrow>
        run_request_interceptors (handler_pairs fs) c = Inr c')
   \<and> (run_fulfilled pre d = Some d'
        \<and> call_handler ''onFulfilled is not a function'' (fulfilled e) d' = Throw err \<longrightarrow>
        run_request_interceptors (handler_pairs (pre @ e # post)) d =
          (case call_handler ''Cannot read properties of undefined (reading 'call')'' (rejected e) err of
             Return v \<Rightarrow> Inr d' | Throw x \<Rightarrow> Inl x))
   \<and> (run_fulfilled (rev (included config (interceptors_request this))) (Val config) = Some final
        \<and> dispatch final = Dispatch_promise (Fulfilled r)
        \<and> run_fulfilled (live (interceptors_response this)) r = Some r' \<longrightarrow>
        request dispatch this config = Request_promise (Fulfilled r'))"
proof (intro conjI impI)
  show "forEach (interceptors_request this) (unshiftRequestInterceptors config) (True, []) =
     (list_all synchronous (included config (interceptors_request this)),
      handler_pairs (rev (included config (interceptors_request this))))"
    by (rule build_request_chain)
  show "forEach (interceptors_response this) pushResponseInterceptors [] =
       handler_pairs (live (interceptors_response this))"
    by (rule build_response_chain)
  show "request dispatch this config =
     (if \<not> list_all synchronous (included config (interceptors_request this))
      then Request_promise
             (then_chain (Fulfilled (Val config))
                (handler_pairs (rev (included config (interceptors_request this)))
                   @ [dispatch_handler dispatch, None]
                   @ handler_pairs (live (interceptors_response this))))
      else (case run_request_interceptors
                  (handler_pairs (rev (included config (interceptors_request this)))) (Val config) of
              Inl e \<Rightarrow> Request_throws e
            | Inr newConfig \<Rightarrow>
                (case dispatch newConfig of
                   Dispatch_throws error \<Rightarrow> Request_promise (Rejected error)
                 | Dispatch_promise promise \<Rightarrow>
                     Request_promise
                       (then_chain promise (handler_pairs (live (interceptors_response this)))))))"
    by (rule request_unfolded)
  show "then_chain q (handler_pairs es) =
       fold (\<lambda>e q. then_promise q (fulfilled e) (rejected e)) es q"
    by (rule then_chain_fold)
  show "run_request_interceptors (handler_pairs fs) c = Inr c'"
    if "run_fulfilled fs c = Some c'"
    by (rule run_request_interceptors_run_fulfilled[OF that])
  show "run_request_interceptors (handler_pairs (pre @ e # post)) d =
          (case call_handler ''Cannot read properties of undefined (reading 'call')'' (rejected e) err of
             Return v \<Rightarrow> Inr d' | Throw x \<Rightarrow> Inl x)"
    if "run_fulfilled pre d = Some d'
        \<and> call_handler ''onFulfilled is not a function'' (fulfilled e) d' = Throw err"
    using run_request_interceptors_throw[of pre d d' e err post] that by blast
  show "request dispatch this config = Request_promise (Fulfilled r')"
    if "run_fulfilled (rev (included config (interceptors_request this))) (Val config) = Some final
        \<and> dispatch final = Dispatch_promise (Fulfilled r)
        \<and> run_fulfilled (live (interceptors_response this)) r = Some r'"
    using request_in_order[of config this final dispatch r r'] that by blast
qed

theorem chain_build_witness:
  "included [] [Some (tagging 5 True None), None, Some (tagging 6 True (Some never)),
                Some (tagging 7 False None)]
     = [tagging 5 True None, tagging 7 False None]
   \<and> forEach [Some (tagging 5 True None), None, Some (tagging 6 True (Some never)),
               Some (tagging 7 False None)] (unshiftRequestInterceptors []) (True, [])
     = (False, [tag_handler 7, None, tag_handler 5, None])
   \<and> forEach [Some (tagging 5 True None), None, Some (tagging 6 True (Some never)),
               Some (tagging 7 True None)] (unshiftRequestInterceptors []) (True, [])
     = (True, [tag_handler 7, None, tag_handler 5, None])
   \<and> forEach [Some (tagging 10 False None), Some (tagging 20 False None)]
        pushResponseInterceptors []
     = [tag_handler 10, None, tag_handler 20, None]
   \<and> run_fulfilled [tagging 7 True None, tagging 5 True None] (Val []) = Some (Val [7, 5])
   \<and> run_request_interceptors [tag_handler 7, None, tag_handler 5, None] (Val []) = Inr (Val [7, 5])
   \<and> then_chain (Fulfilled (Val [])) [tag_handler 7, None, tag_handler 5, None]
       = Fulfilled (Val [7, 5])
   \<and> echo_dispatch (Val [7, 5 :: nat]) = Dispatch_promise (Fulfilled (Val [7, 5]))
   \<and> run_fulfilled [tagging 10 False None, tagging 20 False None] (Val [7, 5])
       = Some (Val [7, 5, 10, 20])
   \<and> request echo_dispatch
        \<lparr> interceptors_request = [Some (tagging 5 True None), None,
            Some (tagging 6 True (Some never)), Some (tagging 7 True None)],
          interceptors_response = [Some (tagging 10 False None), Some (tagging 20 False None)] \<rparr> []
     = Request_promise (Fulfilled (Val [7, 5, 10, 20]))
   \<and> request echo_dispatch
        \<lparr> interceptors_request = [Some (tagging 5 True None), None,
            Some (tagging 6 True (Some never)), Some (tagging 7 False None)],
          interceptors_response = [Some (tagging 10 False None), Some (tagging 20 False None)] \<rparr> []
     = Request_promise (Fulfilled (Val [7, 5, 10, 20]))
   \<and> run_fulfilled [tagging 7 True None] (Val []) = Some (Val [7])
   \<and> call_handler ''onFulfilled is not a function'' (fulfilled (throwing True)) (Val [7]) = Throw (Val [0])
   \<and> run_request_interceptors
        (handler_pairs [tagging 7 True None, throwing True, tagging 5 True None]) (Val [])
     = Inr (Val [7])"
proof -
  let ?ha = "[Some (tagging 5 True None), None, Some (tagging 6 True (Some never)),
              Some (tagging 7 False None)]"
  let ?hs = "[Some (tagging 5 True None), None, Some (tagging 6 True (Some never)),
              Some (tagging 7 True None)]"
  let ?rs = "[Some (tagging 10 False None), Some (tagging 20 False None)]"
  let ?ta = "\<lparr> interceptors_request = ?ha, interceptors_response = ?rs \<rparr>"
  let ?ts = "\<lparr> interceptors_request = ?hs, interceptors_response = ?rs \<rparr>"
  have i: "included [] ?ha = [tagging 5 True None, tagging 7 False None]"
    "included [] ?hs = [tagging 5 True None, tagging 7 True None]"
    by (simp_all add: included_def live_def excluded_def tagging_def never_def)
  have l: "live ?rs = [tagging 10 False None, tagging 20 False None]"
    by (simp add: live_def)
  have p: "handler_pairs [tagging 7 b None, tagging 5 True None]
             = [tag_handler 7, None, tag_handler 5, None]"
    "handler_pairs [tagging 10 False None, tagging 20 False None]
             = [tag_handler 10, None, tag_handler 20, None]" for b
    by (simp_all add: handler_pairs_def tagging_def)
  have s: "synchronous (tagging n b rw) = b" for n b rw
    by (simp add: tagging_def)
  have f: "run_fulfilled [tagging 7 b None, tagging 5 True None] (Val []) = Some (Val [7, 5])"
    "run_fulfilled [tagging 10 False None, tagging 20 False None] (Val [7, 5])
       = Some (Val [7, 5, 10, 20])"
    "run_fulfilled [tagging 7 True None] (Val []) = Some (Val [7])" for b
    by (simp_all add: tagging_def tag_handler_def run_fulfilled.simps)
  have d: "echo_dispatch (Val [7, 5 :: nat]) = Dispatch_promise (Fulfilled (Val [7, 5]))"
    by (simp add: echo_dispatch_def)
  have c: "call_handler ''onFulfilled is not a function'' (fulfilled (throwing True)) (Val [7]) = Throw (Val [0])"
    "call_handler ''Cannot read properties of undefined (reading 'call')'' (rejected (throwing True)) (Val [0]) = Return (Val [0])"
    by (simp_all add: call_handler_def throwing_def)
  have t: "fold (\<lambda>e q. then_promise q (fulfilled e) (rejected e))
             [tagging 7 True None, tagging 5 True None] (Fulfilled (Val []))
           = Fulfilled (Val [7, 5])"
    by (simp add: tagging_def tag_handler_def then_promise_def settle_def resolve_def)
  note sync = chain_build[where this = ?ts and config = "[]" and dispatch = echo_dispatch
      and final = "Val [7, 5]" and r = "Val [7, 5]" and r' = "Val [7, 5, 10, 20]"
      and fs = "[tagging 7 True None, tagging 5 True None]" and c = "Val []" and c' = "Val [7, 5]"
      and pre = "[tagging 7 True None]" and d = "Val []" and d' = "Val [7]"
      and e = "throwing True" and err = "Val [0]" and post = "[tagging 5 True None]"
      and q = "Fulfilled (Val [])" and es = "[tagging 7 True None, tagging 5 True None]"]
  note async = chain_build[where this = ?ta and config = "[]" and dispatch = echo_dispatch
      and final = "Val [7, 5]" and r = "Val [7, 5]" and r' = "Val [7, 5, 10, 20]"
      and fs = "[]" and c = "Val []" and c' = "Val []"
      and pre = "[tagging 7 True None]" and d = "Val []" and d' = "Val [7]"
      and e = "throwing True" and err = "Val [0]" and post = "[tagging 5 True None]"
      and q = "Fulfilled (Val [])" and es = "[]"]
  note c2 = conjunct2
  have a1: "forEach ?ha (unshiftRequestInterceptors []) (True, [])
       = (False, [tag_handler 7, None, tag_handler 5, None])"
    using async[THEN conjunct1] by (simp add: i p s)
  have a2: "forEach ?rs pushResponseInterceptors [] = [tag_handler 10, None, tag_handler 20, None]"
    using async[THEN c2, THEN conjunct1] by (simp add: l p)
  have a7: "request echo_dispatch ?ta [] = Request_promise (Fulfilled (Val [7, 5, 10, 20]))"
    using async[THEN c2, THEN c2, THEN c2, THEN c2, THEN c2, THEN c2] by (simp add: i l f d)
  have s1: "forEach ?hs (unshiftRequestInterceptors []) (True, [])
       = (True, [tag_handler 7, None, tag_handler 5, None])"
    using sync[THEN conjunct1] by (simp add: i p s)
  have s4: "then_chain (Fulfilled (Val [])) [tag_handler 7, None, tag_handler 5, None]
         = Fulfilled (Val [7, 5])"
    using sync[THEN c2, THEN c2, THEN c2, THEN conjunct1] unfolding t by (simp add: p)
  have s5: "run_request_interceptors [tag_handler 7, None, tag_handler 5, None] (Val [])
         = Inr (Val [7, 5])"
    using sync[THEN c2, THEN c2, THEN c2, THEN c2, THEN conjunct1] by (simp add: f p)
  have s6: "run_request_interceptors
          (handler_pairs [tagging 7 True None, throwing True, tagging 5 True None]) (Val [])
        = Inr (Val [7])"
    using sync[THEN c2, THEN c2, THEN c2, THEN c2, THEN c2, THEN conjunct1] by (simp add: f c)
  have s7: "request echo_dispatch ?ts [] = Request_promise (Fulfilled (Val [7, 5, 10, 20]))"
    using sync[THEN c2, THEN c2, THEN c2, THEN c2, THEN c2, THEN c2] by (simp add: i l f d)
  from a1 a2 a7 s1 s4 s5 s6 s7 i(1) f d c(1) show ?thesis by simp
qed


subsection \<open>Axios.request: the two paths\<close>

lemma live_append: "live (xs @ ys) = live xs @ live ys"
  by (simp add: live_def)

lemma included_append: "included config (xs @ ys) = included config xs @ included config ys"
  by (simp add: included_def live_append)

lemma included_desynchronized:
  assumes "i < length hs" "hs ! i = Some e" "\<not> excluded config e"
  shows "included config (hs[i := Some (e\<lparr> synchronous := False \<rparr>)])
           = included config (take i hs) @ [e\<lparr> synchronous := False \<rparr>]
               @ included config (drop (Suc i) hs)"
    and "included config hs
           = included config (take i hs) @ [e] @ included config (drop (Suc i) hs)"
proof -
  have x: "excluded config (e\<lparr> synchronous := False \<rparr>) = excluded config e"
    by (simp add: excluded_def)
  have "hs[i := Some (e\<lparr> synchronous := False \<rparr>)]
          = take i hs @ [Some (e\<lparr> synchronous := False \<rparr>)] @ drop (Suc i) hs"
    using assms(1) by (simp add: upd_conv_take_nth_drop)
  then show "included config (hs[i := Some (e\<lparr> synchronous := False \<rparr>)])
           = included config (take i hs) @ [e\<lparr> synchronous := False \<rparr>]
               @ included config (drop (Suc i) hs)"
    using assms(3) by (simp add: included_append x) (simp add: included_def live_def x)
  have "hs = take i hs @ [Some e] @ drop (Suc i) hs"
    using assms(1,2) id_take_nth_drop[of i hs] by simp
  then have "included config hs = included config (take i hs @ [Some e] @ drop (Suc i) hs)"
    by simp
  then show "included config hs
           = included config (take i hs) @ [e] @ included config (drop (Suc i) hs)"
    using assms(3) by (simp add: included_append) (simp add: included_def live_def)
qed

lemma desynchronized_chain:
  assumes "i < length hs" "hs ! i = Some e" "\<not> excluded config e"
  shows "handler_pairs (rev (included config (hs[i := Some (e\<lparr> synchronous := False \<rparr>)])))
           = handler_pairs (rev (included config hs))"
    and "\<not> list_all synchronous (included config (hs[i := Some (e\<lparr> synchronous := False \<rparr>)]))"
  by (simp_all add: included_desynchronized[OF assms] handler_pairs_append handler_pairs_Cons)

text \<open>
  Claim C1 (as amended). Take a request whose included request interceptors are all
  declared synchronous, and the same request with one of them not declared
  synchronous. If every fulfilled handler of the request chain is a function that
  returns a value which is not a promise, and \<open>dispatchRequest\<close> returns a promise for
  the resulting config \<open>final\<close>, then both calls hand \<open>final\<close> to \<open>dispatchRequest\<close> and
  return the same promise: the one \<open>dispatchRequest\<close> returned, followed by the response
  chain.
\<close>

theorem sync_async_equivalence:
  assumes "i < length hs" and "hs ! i = Some e" and "\<not> excluded config e"
    and "list_all synchronous (included config hs)"
    and "fulfil_all (handler_pairs (rev (included config hs))) (Val config) = Some final"
    and "dispatch final = Dispatch_promise p"
  shows "request dispatch \<lparr> interceptors_request = hs, interceptors_response = rs \<rparr> config
           = Request_promise (then_chain p (handler_pairs (live rs)))
     \<and> request dispatch \<lparr> interceptors_request = hs[i := Some (e\<lparr> synchronous := False \<rparr>)],
                          interceptors_response = rs \<rparr> config
           = Request_promise (then_chain p (handler_pairs (live rs)))"
proof
  show "request dispatch \<lparr> interceptors_request = hs, interceptors_response = rs \<rparr> config
           = Request_promise (then_chain p (handler_pairs (live rs)))"
    using assms(4,6) run_request_interceptors_fulfil_all[OF assms(5)]
    by (simp add: request_unfolded)
  have d: "then_promise (Fulfilled final) (dispatch_handler dispatch) None = p"
    using assms(6) by (simp add: then_promise_def dispatch_handler_def settle_def resolve_def)
  show "request dispatch \<lparr> interceptors_request = hs[i := Some (e\<lparr> synchronous := False \<rparr>)],
                          interceptors_response = rs \<rparr> config
           = Request_promise (then_chain p (handler_pairs (live rs)))"
    using then_chain_fulfil_all[OF assms(5)]
    by (simp add: request_unfolded desynchronized_chain[OF assms(1-3)] then_chain_pairs_append d)
qed

text \<open>
  Each of these conditions is needed: four pairs of calls that differ only in the
  \<open>synchronous\<close> declaration of one request interceptor, and whose outcomes differ. (1) One
  interceptor whose fulfilled handler throws \<open>[0]\<close> and whose rejected handler returns:
  synchronous, \<open>request\<close> dispatches the config \<open>[7]\<close> and fulfils with it; not synchronous,
  it rejects with \<open>[0]\<close>. (2) A \<open>dispatchRequest\<close> that throws \<open>[1]\<close>, with a response
  interceptor whose rejected handler returns: synchronous, \<open>request\<close> rejects with \<open>[1]\<close>;
  not synchronous, it fulfils with \<open>[1]\<close>. (3) An interceptor without a fulfilled handler
  registered after one that appends 5: synchronous, the config \<open>[]\<close> is dispatched; not
  synchronous, the config \<open>[5]\<close>. (4) An interceptor whose fulfilled handler returns a
  promise fulfilled with \<open>[9]\<close>: synchronous, the promise itself is handed to
  \<open>dispatchRequest\<close>, which rejects it; not synchronous, the config \<open>[9]\<close> is dispatched.
\<close>

theorem sync_async_counterexample:
  "request echo_dispatch
      \<lparr> interceptors_request = [Some (throwing True)], interceptors_response = [] \<rparr> [7]
     = Request_promise (Fulfilled (Val [7]))
   \<and> request echo_dispatch
      \<lparr> interceptors_request = [Some (throwing False)], interceptors_response = [] \<rparr> [7]
     = Request_promise (Rejected (Val [0]))
   \<and> [Some (throwing False)] = [Some (throwing True)][0 := Some ((throwing True)\<lparr> synchronous := False \<rparr>)]
   \<and> request failing_dispatch
      \<lparr> interceptors_request = [Some (tagging 5 True None)],
        interceptors_response = [Some recovering] \<rparr> []
     = Request_promise (Rejected (Val [1]))
   \<and> request failing_dispatch
      \<lparr> interceptors_request = [Some (tagging 5 False None)],
        interceptors_response = [Some recovering] \<rparr> []
     = Request_promise (Fulfilled (Val [1]))
   \<and> [Some (tagging 5 False None)]
       = [Some (tagging 5 True None)][0 := Some ((tagging 5 True None)\<lparr> synchronous := False \<rparr>)]
   \<and> request echo_dispatch
      \<lparr> interceptors_request = [Some (tagging 5 True None), Some (missing True)],
        interceptors_response = [] \<rparr> []
     = Request_promise (Fulfilled (Val []))
   \<and> request echo_dispatch
      \<lparr> interceptors_request = [Some (tagging 5 True None), Some (missing False)],
        interceptors_response = [] \<rparr> []
     = Request_promise (Fulfilled (Val [5]))
   \<and> [Some (tagging 5 True None), Some (missing False)]
       = [Some (tagging 5 True None), Some (missing True)]
           [Suc 0 := Some ((missing True)\<lparr> synchronous := False \<rparr>)]
   \<and> request strict_dispatch
      \<lparr> interceptors_request = [Some (deferring True)], interceptors_response = [] \<rparr> []
     = Request_promise (Rejected (Engine_TypeError ''config is not an object''))
   \<and> request strict_dispatch
      \<lparr> interceptors_request = [Some (deferring False)], interceptors_response = [] \<rparr> []
     = Request_promise (Fulfilled (Val [9]))
   \<and> [Some (deferring False)]
       = [Some (deferring True)][0 := Some ((deferring True)\<lparr> synchronous := False \<rparr>)]"
proof -
  have a: "request echo_dispatch
      \<lparr> interceptors_request = [Some (throwing True)], interceptors_response = [] \<rparr> [7]
     = Request_promise (Fulfilled (Val [7]))
   \<and> request echo_dispatch
      \<lparr> interceptors_request = [Some (throwing False)], interceptors_response = [] \<rparr> [7]
     = Request_promise (Rejected (Val [0]))
   \<and> [Some (throwing False)] = [Some (throwing True)][0 := Some ((throwing True)\<lparr> synchronous := False \<rparr>)]"
    by (simp add: request_def forEach_def unshiftRequestInterceptors_def pushResponseInterceptors_def
        throwing_def echo_dispatch_def call_handler_def dispatch_handler_def then_promise_def
        settle_def resolve_def)
  have b: "request failing_dispatch
      \<lparr> interceptors_request = [Some (tagging 5 True None)],
        interceptors_response = [Some recovering] \<rparr> []
     = Request_promise (Rejected (Val [1]))
   \<and> request failing_dispatch
      \<lparr> interceptors_request = [Some (tagging 5 False None)],
        interceptors_response = [Some recovering] \<rparr> []
     = Request_promise (Fulfilled (Val [1]))
   \<and> [Some (tagging 5 False None)]
       = [Some (tagging 5 True None)][0 := Some ((tagging 5 True None)\<lparr> synchronous := False \<rparr>)]"
    by (simp add: request_def forEach_def unshiftRequestInterceptors_def pushResponseInterceptors_def
        tagging_def tag_handler_def recovering_def failing_dispatch_def call_handler_def
        dispatch_handler_def then_promise_def settle_def resolve_def)
  have c: "request echo_dispatch
      \<lparr> interceptors_request = [Some (tagging 5 True None), Some (missing True)],
        interceptors_response = [] \<rparr> []
     = Request_promise (Fulfilled (Val []))
   \<and> request echo_dispatch
      \<lparr> interceptors_request = [Some (tagging 5 True None), Some (missing False)],
        interceptors_response = [] \<rparr> []
     = Request_promise (Fulfilled (Val [5]))
   \<and> [Some (tagging 5 True None), Some (missing False)]
       = [Some (tagging 5 True None), Some (missing True)]
           [Suc 0 := Some ((missing True)\<lparr> synchronous := False \<rparr>)]"
    by (simp add: request_def forEach_def unshiftRequestInterceptors_def pushResponseInterceptors_def
        tagging_def tag_handler_def missing_def echo_dispatch_def call_handler_def
        dispatch_handler_def then_promise_def settle_def resolve_def)
  have d: "request strict_dispatch
      \<lparr> interceptors_request = [Some (deferring True)], interceptors_response = [] \<rparr> []
     = Request_promise (Rejected (Engine_TypeError ''config is not an object''))
   \<and> request strict_dispatch
      \<lparr> interceptors_request = [Some (deferring False)], interceptors_response = [] \<rparr> []
     = Request_promise (Fulfilled (Val [9]))
   \<and> [Some (deferring False)]
       = [Some (deferring True)][0 := Some ((deferring True)\<lparr> synchronous := False \<rparr>)]"
    by (simp add: request_def forEach_def unshiftRequestInterceptors_def pushResponseInterceptors_def
        deferring_def strict_dispatch_def call_handler_def dispatch_handler_def then_promise_def
        settle_def resolve_def)
  from a b c d show ?thesis by blast
qed

theorem sync_async_equivalence_witness:
  "(0::nat) < length [Some (tagging 5 True None), Some (tagging 6 True None)]
   \<and> [Some (tagging 5 True None), Some (tagging 6 True None)] ! 0 = Some (tagging 5 True None)
   \<and> \<not> excluded [] (tagging 5 True None)
   \<and> list_all synchronous (included [] [Some (tagging 5 True None), Some (tagging 6 True None)])
   \<and> fulfil_all (handler_pairs (rev (included []
          [Some (tagging 5 True None), Some (tagging 6 True None)]))) (Val []) = Some (Val [6, 5])
   \<and> echo_dispatch (Val [6, 5 :: nat]) = Dispatch_promise (Fulfilled (Val [6, 5]))
   \<and> request echo_dispatch
        \<lparr> interceptors_request = [Some (tagging 5 True None), Some (tagging 6 True None)],
          interceptors_response = [Some (tagging 10 False None)] \<rparr> []
       = Request_promise (Fulfilled (Val [6, 5, 10]))
   \<and> request echo_dispatch
        \<lparr> interceptors_request = [Some (tagging 5 False None), Some (tagging 6 True None)],
          interceptors_response = [Some (tagging 10 False None)] \<rparr> []
       = Request_promise (Fulfilled (Val [6, 5, 10]))"
proof -
  let ?hs = "[Some (tagging 5 True None), Some (tagging 6 True None)]"
  have h1: "(0::nat) < length ?hs" by simp
  have h2: "?hs ! 0 = Some (tagging 5 True None)" by simp
  have h3: "\<not> excluded [] (tagging 5 True None)"
    by (simp add: excluded_def tagging_def)
  have i: "included [] ?hs = [tagging 5 True None, tagging 6 True None]"
    by (simp add: included_def live_def excluded_def tagging_def)
  have sy: "synchronous (tagging n b rw) = b" for n b rw
    by (simp add: tagging_def)
  have h4: "list_all synchronous (included [] ?hs)"
    unfolding i by (simp add: sy)
  have h5: "fulfil_all (handler_pairs (rev (included [] ?hs))) (Val []) = Some (Val [6, 5])"
    unfolding i by (simp add: handler_pairs_def tagging_def tag_handler_def)
  have h6: "echo_dispatch (Val [6, 5 :: nat]) = Dispatch_promise (Fulfilled (Val [6, 5]))"
    by (simp add: echo_dispatch_def)
  have u: "?hs[0 := Some ((tagging 5 True None)\<lparr> synchronous := False \<rparr>)]
             = [Some (tagging 5 False None), Some (tagging 6 True None)]"
    by (simp add: tagging_def)
  have r: "then_chain (Fulfilled (Val [6, 5])) (handler_pairs (live [Some (tagging 10 False None)]))
             = Fulfilled (Val [6, 5, 10])"
    by (simp add: live_def handler_pairs_def tagging_def tag_handler_def then_promise_def
        settle_def resolve_def)
  show ?thesis
    using sync_async_equivalence[of 0 ?hs "tagging 5 True None" "[]" "Val [6, 5]" echo_dispatch
        "Fulfilled (Val [6, 5])" "[Some (tagging 10 False None)]", OF h1 h2 h3 h4 h5 h6]
    unfolding u r
    using h1 h2 h3 h4 h5 h6 by simp
qed

end
